theory Spec2Isabelle
  imports Main
begin

section \<open>JSON values and the Python operations the client applies to them\<close>

text \<open>
  The values \<^verbatim>\<open>json.loads\<close> produces and \<^verbatim>\<open>requests\<close> serialises: \<^verbatim>\<open>None\<close>,
  booleans, integers, strings, lists and dicts. A dict is an association list read with
  \<open>map_of\<close>. JSON numbers are integers here (floating point is not modelled), and
  \<^verbatim>\<open>copy.deepcopy\<close> is the identity on immutable values.
\<close>

datatype json =
    JNull
  | JBool bool
  | JInt int
  | JStr string
  | JList "json list"
  | JObj "(string \<times> json) list"

text \<open>
  The exceptions of \<^verbatim>\<open>dbaccess_rest.py\<close>, each with its message, and the Python runtime
  errors its expressions raise on a response of an unexpected shape.
\<close>

datatype error =
    DatabaseUnableToCreate string
  | DatabaseUnableToExtractData string
  | DatabaseUnableToAccess string
  | DatabaseUnableToDelete string
  | DatabaseUnableToAddItem string
  | DatabaseCollectionExists string
  | DatabaseTooManyMetadataDocs string
  | DatabaseMetadataAlreadyExists string
  | JSONDecodeError
  | AttributeError
  | TypeError
  | IndexError
  | KeyError

text \<open>Truth value of a Python object, as \<^verbatim>\<open>if x:\<close> and \<^verbatim>\<open>while x:\<close> test it.\<close>

fun py_truthy :: "json \<Rightarrow> bool" where
  "py_truthy JNull = False"
| "py_truthy (JBool b) = b"
| "py_truthy (JInt n) = (n \<noteq> 0)"
| "py_truthy (JStr s) = (s \<noteq> [])"
| "py_truthy (JList xs) = (xs \<noteq> [])"
| "py_truthy (JObj kvs) = (kvs \<noteq> [])"

text \<open>\<^verbatim>\<open>d.get(k)\<close>: the value, \<^verbatim>\<open>None\<close> for a missing key, AttributeError when
  \<^verbatim>\<open>d\<close> is not a dict.\<close>

fun py_get :: "json \<Rightarrow> string \<Rightarrow> error + json" where
  "py_get (JObj kvs) k = Inr (case map_of kvs k of None \<Rightarrow> JNull | Some v \<Rightarrow> v)"
| "py_get _ k = Inl AttributeError"

text \<open>The integer an operand of \<^verbatim>\<open>+\<close>, \<^verbatim>\<open>>\<close> or \<^verbatim>\<open>==\<close> against an int stands for:
  \<^verbatim>\<open>True\<close> is 1 and \<^verbatim>\<open>False\<close> is 0; any other type raises TypeError in \<^verbatim>\<open>+\<close>
  and \<^verbatim>\<open>>\<close>.\<close>

fun py_int :: "json \<Rightarrow> error + int" where
  "py_int (JInt n) = Inr n"
| "py_int (JBool b) = Inr (if b then 1 else 0)"
| "py_int _ = Inl TypeError"

text \<open>The elements \<^verbatim>\<open>for it in x\<close> visits: of a list its elements, of a string its
  characters, of a dict its keys; the other values are not iterable.\<close>

fun py_iter :: "json \<Rightarrow> error + json list" where
  "py_iter (JList xs) = Inr xs"
| "py_iter (JStr s) = Inr (map (\<lambda>c. JStr [c]) s)"
| "py_iter (JObj kvs) = Inr (map (\<lambda>kv. JStr (fst kv)) kvs)"
| "py_iter _ = Inl TypeError"

text \<open>\<^verbatim>\<open>[it.get(k) for it in its]\<close>: the first element that is not a dict raises.\<close>

fun py_get_each :: "string \<Rightarrow> json list \<Rightarrow> error + json list" where
  "py_get_each k [] = Inr []"
| "py_get_each k (it # its) =
     (case py_get it k of
        Inl e \<Rightarrow> Inl e
      | Inr v \<Rightarrow> (case py_get_each k its of Inl e \<Rightarrow> Inl e | Inr vs \<Rightarrow> Inr (v # vs)))"

text \<open>\<^verbatim>\<open>x[0]\<close>. The keys of a dict read from JSON are strings, so the key 0 is never
  there.\<close>

fun py_index0 :: "json \<Rightarrow> error + json" where
  "py_index0 (JList []) = Inl IndexError"
| "py_index0 (JList (x # xs)) = Inr x"
| "py_index0 (JStr []) = Inl IndexError"
| "py_index0 (JStr (c # s)) = Inr (JStr [c])"
| "py_index0 (JObj kvs) = Inl KeyError"
| "py_index0 _ = Inl TypeError"

text \<open>\<^verbatim>\<open>s in t\<close> for two strings: \<open>s\<close> occurs in \<open>t\<close>.\<close>

fun str_contains :: "string \<Rightarrow> string \<Rightarrow> bool" where
  "str_contains [] s = (s = [])"
| "str_contains (c # t) s = (take (length s) (c # t) = s \<or> str_contains t s)"

text \<open>\<^verbatim>\<open>s in x\<close> for a string \<open>s\<close>: an element of a list, a key of a dict, a substring
  of a string.\<close>

fun py_contains :: "json \<Rightarrow> string \<Rightarrow> error + bool" where
  "py_contains (JList xs) s = Inr (JStr s \<in> set xs)"
| "py_contains (JObj kvs) s = Inr (s \<in> set (map fst kvs))"
| "py_contains (JStr t) s = Inr (str_contains t s)"
| "py_contains _ s = Inl TypeError"

text \<open>\<^verbatim>\<open>str(n)\<close> of an integer, also what \<^verbatim>\<open>"{}".format(n)\<close> inserts.\<close>

fun str_nat :: "nat \<Rightarrow> string" where
  "str_nat n =
     (if n < 10 then [''0123456789'' ! n]
      else str_nat (n div 10) @ [''0123456789'' ! (n mod 10)])"

declare str_nat.simps [simp del]

definition str_int :: "int \<Rightarrow> string" where
  "str_int i = (if i < 0 then ''-'' @ str_nat (nat (- i)) else str_nat (nat i))"

section \<open>The remote store and the transport\<close>

datatype http_method = GET | POST | PUT | DELETE

text \<open>A request as \<^verbatim>\<open>requests.get/post/put/delete\<close> receives it: the \<^verbatim>\<open>url\<close>, the
  \<^verbatim>\<open>auth\<close> pair and, for a POST, the \<^verbatim>\<open>json\<close> payload.\<close>

record request =
  verb :: http_method
  url :: string
  auth :: "string \<times> json"
  payload :: "json option"

text \<open>
  The fields of a response the client reads. \<open>resp_text\<close> is \<^verbatim>\<open>resp.text\<close> as \<^verbatim>\<open>json.loads\<close>
  reads it: \<open>None\<close> when it is not a JSON document (\<^verbatim>\<open>json.loads\<close> raises).
\<close>

record http_response =
  status_code :: int
  reason :: string
  resp_text :: "json option"

text \<open>
  The remote store is any deterministic responder: its answer to a request is a function
  of all the requests sent so far, the last one being the request answered. The state of
  the world the client acts on is that list of requests (the trace); every transport call
  appends to it.
\<close>

type_synonym remote = "request list \<Rightarrow> http_response"
type_synonym trace = "request list"

text \<open>The object: the private fields set by \<^verbatim>\<open>__init__\<close>. The user and the
  collection name of an object are strings (no object is built otherwise, see \<open>init\<close>);
  the password is whatever the caller passed.\<close>

record JsonDatabase =
  user :: string
  pword :: json
  collname :: string
  baseurl :: string

text \<open>The dict the three \<^verbatim>\<open>__make_*_request\<close> helpers return: status \<^verbatim>\<open>"ok"\<close> with
  the code and the data, or status \<^verbatim>\<open>"error"\<close> with the code and the reason. The reply
  to a DELETE has no data, and no caller reads it.\<close>

datatype reply =
    StatusOk int "json option"
  | StatusError int string

definition make_post_request ::
  "remote \<Rightarrow> JsonDatabase \<Rightarrow> string \<Rightarrow> json \<Rightarrow> trace \<Rightarrow> reply \<times> trace" where
  "make_post_request srv self target_url payload_dict w =
     (let w' = w @ [\<lparr>verb = POST, url = target_url, auth = (user self, pword self),
                     payload = Some payload_dict\<rparr>];
          resp = srv w'
      in (if 200 \<le> status_code resp \<and> status_code resp \<le> 299
          then StatusOk (status_code resp) (resp_text resp)
          else StatusError (status_code resp) (reason resp), w'))"

definition make_get_request ::
  "remote \<Rightarrow> JsonDatabase \<Rightarrow> string \<Rightarrow> trace \<Rightarrow> reply \<times> trace" where
  "make_get_request srv self target_url w =
     (let w' = w @ [\<lparr>verb = GET, url = target_url, auth = (user self, pword self),
                     payload = None\<rparr>];
          resp = srv w'
      in (if 200 \<le> status_code resp \<and> status_code resp \<le> 299
          then StatusOk (status_code resp) (resp_text resp)
          else StatusError (status_code resp) (reason resp), w'))"

definition make_delete_request ::
  "remote \<Rightarrow> JsonDatabase \<Rightarrow> string \<Rightarrow> trace \<Rightarrow> reply \<times> trace" where
  "make_delete_request srv self target_url w =
     (let w' = w @ [\<lparr>verb = DELETE, url = target_url, auth = (user self, pword self),
                     payload = None\<rparr>];
          resp = srv w'
      in (if status_code resp = 200
          then StatusOk (status_code resp) None
          else StatusError (status_code resp) (reason resp), w'))"

section \<open>Collections\<close>

text \<open>
  \<open>DB_BASE_URL\<close> is the constant \<^verbatim>\<open>ct.DB_BASE_URL\<close> of the module \<^verbatim>\<open>constants\<close>,
  which is not among the sources: the functions that read it take it as a parameter.
  An operation returns the value or the exception raised, and the trace.
\<close>

definition list_collections ::
  "string \<Rightarrow> remote \<Rightarrow> JsonDatabase \<Rightarrow> bool \<Rightarrow> trace \<Rightarrow> (error + json) \<times> trace" where
  "list_collections DB_BASE_URL srv self only_names w =
     (let url_tail = user self @ ''/soda/latest'' in
      case make_get_request srv self (DB_BASE_URL @ url_tail) w of
        (StatusOk code data, w') \<Rightarrow>
          (case data of
             None \<Rightarrow> (Inl JSONDecodeError, w')
           | Some resp_dict \<Rightarrow>
               if only_names then
                 (case py_get resp_dict ''items'' of
                    Inl e \<Rightarrow> (Inl e, w')
                  | Inr items \<Rightarrow>
                      if items = JNull then (Inr (JList []), w')
                      else (case py_iter items of
                              Inl e \<Rightarrow> (Inl e, w')
                            | Inr its \<Rightarrow>
                                (case py_get_each ''name'' its of
                                   Inl e \<Rightarrow> (Inl e, w')
                                 | Inr names \<Rightarrow> (Inr (JList names), w'))))
               else (Inr resp_dict, w'))
      | (StatusError code rsn, w') \<Rightarrow>
          (Inl (DatabaseUnableToAccess (str_int code @ '' '' @ rsn)), w'))"

definition delete_collection ::
  "remote \<Rightarrow> JsonDatabase \<Rightarrow> trace \<Rightarrow> (error + int) \<times> trace" where
  "delete_collection srv self w =
     (case make_delete_request srv self (baseurl self) w of
        (StatusError code rsn, w') \<Rightarrow>
          (Inl (DatabaseUnableToDelete (str_int code @ '' '' @ rsn)), w')
      | (StatusOk code data, w') \<Rightarrow> (Inr 1, w'))"

text \<open>The PUT of \<^verbatim>\<open>__create_collection\<close> goes through \<^verbatim>\<open>requests.put\<close> directly.\<close>

definition put_collection ::
  "remote \<Rightarrow> JsonDatabase \<Rightarrow> trace \<Rightarrow> (error + int) \<times> trace" where
  "put_collection srv self w =
     (let w' = w @ [\<lparr>verb = PUT, url = baseurl self, auth = (user self, pword self),
                     payload = None\<rparr>];
          resp = srv w'
      in if status_code resp > 299
         then (Inl (DatabaseUnableToCreate
                      (str_int (status_code resp) @ '' '' @ reason resp)), w')
         else (Inr 1, w'))"

definition create_collection ::
  "string \<Rightarrow> remote \<Rightarrow> JsonDatabase \<Rightarrow> bool \<Rightarrow> trace \<Rightarrow> (error + int) \<times> trace" where
  "create_collection DB_BASE_URL srv self overwrite w =
     (case list_collections DB_BASE_URL srv self True w of
        (Inl e, w1) \<Rightarrow> (Inl e, w1)
      | (Inr all_colls, w1) \<Rightarrow>
          (case py_contains all_colls (collname self) of
             Inl e \<Rightarrow> (Inl e, w1)
           | Inr True \<Rightarrow>
               if overwrite then
                 (case delete_collection srv self w1 of
                    (Inl e, w2) \<Rightarrow> (Inl e, w2)
                  | (Inr d, w2) \<Rightarrow> put_collection srv self w2)
               else (Inl (DatabaseCollectionExists
                            (collname self @ '' already exists'')), w1)
           | Inr False \<Rightarrow> put_collection srv self w1))"

text \<open>
  \<^verbatim>\<open>__init__\<close>: the object, or the exception that left it unconstructed. The
  arguments are Python values of any type. The statement
  \<^verbatim>\<open>url_tail = user + "/soda/latest/" + collection_name\<close> runs before the test of
  \<^verbatim>\<open>create_coll\<close> and raises TypeError unless \<^verbatim>\<open>user\<close> and
  \<^verbatim>\<open>collection_name\<close> are both strings.
\<close>

definition init ::
  "string \<Rightarrow> remote \<Rightarrow> json \<Rightarrow> json \<Rightarrow> json \<Rightarrow> bool \<Rightarrow> bool \<Rightarrow> trace
     \<Rightarrow> (error + JsonDatabase) \<times> trace" where
  "init DB_BASE_URL srv user' password collection_name create_coll overwrite w =
     (case user' of
        JStr u \<Rightarrow>
          (case collection_name of
             JStr c \<Rightarrow>
               (let url_tail = u @ ''/soda/latest/'' @ c;
                    self = \<lparr>user = u, pword = password, collname = c,
                            baseurl = DB_BASE_URL @ url_tail\<rparr>
                in if create_coll then
                     (case create_collection DB_BASE_URL srv self overwrite w of
                        (Inl e, w') \<Rightarrow> (Inl e, w')
                      | (Inr r, w') \<Rightarrow> (Inr self, w'))
                   else (Inr self, w))
           | _ \<Rightarrow> (Inl TypeError, w))
      | _ \<Rightarrow> (Inl TypeError, w))"

section \<open>Documents and metadata\<close>

definition add_item ::
  "remote \<Rightarrow> JsonDatabase \<Rightarrow> json \<Rightarrow> trace \<Rightarrow> (error + int) \<times> trace" where
  "add_item srv self item_dict w =
     (case make_post_request srv self (baseurl self) item_dict w of
        (StatusError code rsn, w') \<Rightarrow>
          (Inl (DatabaseUnableToAddItem (str_int code @ '' '' @ rsn)), w')
      | (StatusOk code data, w') \<Rightarrow> (Inr 1, w'))"

definition add_multiple_items ::
  "remote \<Rightarrow> JsonDatabase \<Rightarrow> json list \<Rightarrow> trace \<Rightarrow> (error + int) \<times> trace" where
  "add_multiple_items srv self items_list w =
     (let insert_url = baseurl self @ ''?action=insert'' in
      case make_post_request srv self insert_url (JList items_list) w of
        (StatusError code rsn, w') \<Rightarrow>
          (Inl (DatabaseUnableToAddItem (str_int code @ '' '' @ rsn)), w')
      | (StatusOk code data, w') \<Rightarrow> (Inr 1, w'))"

definition extract_metadata ::
  "remote \<Rightarrow> JsonDatabase \<Rightarrow> trace \<Rightarrow> (error + json) \<times> trace" where
  "extract_metadata srv self w =
     (let extract_url = baseurl self @ ''?action=query'';
          qdata = JObj [(''type'', JObj [(''$eq'', JStr ''Metadata'')])]
      in case make_post_request srv self extract_url qdata w of
           (StatusOk code data, w') \<Rightarrow>
             (case data of
                None \<Rightarrow> (Inl JSONDecodeError, w')
              | Some returned_data \<Rightarrow>
                  (case py_get returned_data ''items'' of
                     Inl e \<Rightarrow> (Inl e, w')
                   | Inr all_items \<Rightarrow>
                       (case py_get returned_data ''count'' of
                          Inl e \<Rightarrow> (Inl e, w')
                        | Inr count \<Rightarrow>
                            (case py_int count of
                               Inl e \<Rightarrow> (Inl e, w')
                             | Inr c \<Rightarrow>
                                 if c > 1 then
                                   (Inl (DatabaseTooManyMetadataDocs
                                     (''Found '' @ str_int c
                                        @ '' metadata documents. Only one is allowed.'')), w')
                                 else if c = 0 then (Inr (JObj []), w')
                                 else
                                   (case py_index0 all_items of
                                      Inl e \<Rightarrow> (Inl e, w')
                                    | Inr it \<Rightarrow>
                                        (case py_get it ''value'' of
                                           Inl e \<Rightarrow> (Inl e, w')
                                         | Inr v \<Rightarrow>
                                             (case py_get v ''content'' of
                                                Inl e \<Rightarrow> (Inl e, w')
                                              | Inr extracted \<Rightarrow> (Inr extracted, w'))))))))
         | (StatusError code rsn, w') \<Rightarrow>
             (Inl (DatabaseUnableToExtractData (str_int code @ '' '' @ rsn)), w'))"

definition add_metadata ::
  "remote \<Rightarrow> JsonDatabase \<Rightarrow> json \<Rightarrow> trace \<Rightarrow> (error + int) \<times> trace" where
  "add_metadata srv self metadata_dict w =
     (let formatted_dict = JObj [(''type'', JStr ''Metadata''), (''content'', metadata_dict)]
      in case extract_metadata srv self w of
           (Inl e, w1) \<Rightarrow> (Inl e, w1)
         | (Inr current_meta, w1) \<Rightarrow>
             if py_truthy current_meta then
               (Inl (DatabaseMetadataAlreadyExists
                       ''A collection can have only 1 metadata document.''), w1)
             else
               (case make_post_request srv self (baseurl self) formatted_dict w1 of
                  (StatusError code rsn, w2) \<Rightarrow>
                    (Inl (DatabaseUnableToAddItem (str_int code @ '' '' @ rsn)), w2)
                | (StatusOk code data, w2) \<Rightarrow> (Inr 1, w2)))"

section \<open>Paginated queries\<close>

text \<open>
  What one turn of the \<^verbatim>\<open>while has_more\<close> loop does with the reply to its request, the
  same statements in \<^verbatim>\<open>extract_items\<close>, \<^verbatim>\<open>extract_tile_data\<close> and
  \<^verbatim>\<open>extract_region\<close>: the new \<^verbatim>\<open>has_more\<close>, \<^verbatim>\<open>offset\<close> and \<^verbatim>\<open>items\<close>, or the
  exception raised.
\<close>

definition page_step :: "reply \<Rightarrow> int \<Rightarrow> json list \<Rightarrow> error + (json \<times> int \<times> json list)" where
  "page_step resp offset items =
     (case resp of
        StatusOk code data \<Rightarrow>
          (case data of
             None \<Rightarrow> Inl JSONDecodeError
           | Some returned_data \<Rightarrow>
               (case py_get returned_data ''items'' of
                  Inl e \<Rightarrow> Inl e
                | Inr all_items \<Rightarrow>
                    (case py_get returned_data ''count'' of
                       Inl e \<Rightarrow> Inl e
                     | Inr count \<Rightarrow>
                         (case py_get returned_data ''hasMore'' of
                            Inl e \<Rightarrow> Inl e
                          | Inr has_more \<Rightarrow>
                              (case py_int count of
                                 Inl e \<Rightarrow> Inl e
                               | Inr c \<Rightarrow>
                                   if c > 0 then
                                     (case py_iter all_items of
                                        Inl e \<Rightarrow> Inl e
                                      | Inr its \<Rightarrow>
                                          (case py_get_each ''value'' its of
                                             Inl e \<Rightarrow> Inl e
                                           | Inr extracted \<Rightarrow>
                                               Inr (has_more, offset + c, items @ extracted)))
                                   else Inr (has_more, offset + c, items))))))
      | StatusError code rsn \<Rightarrow>
          Inl (DatabaseUnableToExtractData (str_int code @ '' '' @ rsn)))"

text \<open>
  The loops. A loop that is never told to stop does not return: its value is \<open>None\<close>.
  \<^verbatim>\<open>has_more\<close> starts as \<^verbatim>\<open>True\<close>, so the body runs before the first test.
\<close>

partial_function (option) extract_items_loop ::
  "remote \<Rightarrow> JsonDatabase \<Rightarrow> int \<Rightarrow> trace \<Rightarrow> int \<Rightarrow> json list
     \<Rightarrow> ((error + json list) \<times> trace) option" where
  "extract_items_loop srv self z_layer w offset items =
     (let extract_url = baseurl self @ ''?action=query&offset='' @ str_int offset;
          qdata = JObj [(''geometry.coordinates[2]'', JObj [(''$eq'', JInt z_layer)])]
      in case make_post_request srv self extract_url qdata w of
           (resp, w') \<Rightarrow>
             (case page_step resp offset items of
                Inl e \<Rightarrow> Some (Inl e, w')
              | Inr (has_more, offset', items') \<Rightarrow>
                  if py_truthy has_more
                  then extract_items_loop srv self z_layer w' offset' items'
                  else Some (Inr items', w')))"

definition extract_items ::
  "remote \<Rightarrow> JsonDatabase \<Rightarrow> int \<Rightarrow> trace \<Rightarrow> ((error + json list) \<times> trace) option" where
  "extract_items srv self z_layer w = extract_items_loop srv self z_layer w 0 []"

partial_function (option) extract_tile_data_loop ::
  "remote \<Rightarrow> JsonDatabase \<Rightarrow> int \<Rightarrow> int \<Rightarrow> int \<Rightarrow> int \<Rightarrow> int \<Rightarrow> trace \<Rightarrow> int \<Rightarrow> json list
     \<Rightarrow> ((error + json list) \<times> trace) option" where
  "extract_tile_data_loop srv self z_layer x0 y0 xf yf w offset items =
     (let extract_url = baseurl self @ ''?action=query&offset='' @ str_int offset;
          qdata = JObj [(''geometry.coordinates[2]'', JObj [(''$eq'', JInt z_layer)]),
                        (''geometry.coordinates[0]'',
                           JObj [(''$between'', JList [JInt x0, JInt xf])]),
                        (''geometry.coordinates[1]'',
                           JObj [(''$between'', JList [JInt y0, JInt yf])])]
      in case make_post_request srv self extract_url qdata w of
           (resp, w') \<Rightarrow>
             (case page_step resp offset items of
                Inl e \<Rightarrow> Some (Inl e, w')
              | Inr (has_more, offset', items') \<Rightarrow>
                  if py_truthy has_more
                  then extract_tile_data_loop srv self z_layer x0 y0 xf yf w' offset' items'
                  else Some (Inr items', w')))"

definition extract_tile_data ::
  "remote \<Rightarrow> JsonDatabase \<Rightarrow> int \<Rightarrow> int \<Rightarrow> int \<Rightarrow> int \<Rightarrow> trace
     \<Rightarrow> ((error + json list) \<times> trace) option" where
  "extract_tile_data srv self z_layer x0 y0 tile_size w =
     (let xf = x0 + tile_size - 1;
          yf = y0 + tile_size - 1
      in extract_tile_data_loop srv self z_layer x0 y0 xf yf w 0 [])"

partial_function (option) extract_region_loop ::
  "remote \<Rightarrow> JsonDatabase \<Rightarrow> int \<Rightarrow> int \<Rightarrow> int \<Rightarrow> int \<Rightarrow> int \<Rightarrow> trace \<Rightarrow> int \<Rightarrow> json list
     \<Rightarrow> ((error + json list) \<times> trace) option" where
  "extract_region_loop srv self z_layer x0 y0 xf yf w offset items =
     (let extract_url = baseurl self @ ''?action=query&offset='' @ str_int offset;
          qdata = JObj [(''geometry.coordinates[2]'', JObj [(''$eq'', JInt z_layer)]),
                        (''geometry.coordinates[0]'',
                           JObj [(''$between'', JList [JInt x0, JInt xf])]),
                        (''geometry.coordinates[1]'',
                           JObj [(''$between'', JList [JInt y0, JInt yf])])]
      in case make_post_request srv self extract_url qdata w of
           (resp, w') \<Rightarrow>
             (case page_step resp offset items of
                Inl e \<Rightarrow> Some (Inl e, w')
              | Inr (has_more, offset', items') \<Rightarrow>
                  if py_truthy has_more
                  then extract_region_loop srv self z_layer x0 y0 xf yf w' offset' items'
                  else Some (Inr items', w')))"

definition extract_region ::
  "remote \<Rightarrow> JsonDatabase \<Rightarrow> int \<Rightarrow> int \<Rightarrow> int \<Rightarrow> int \<Rightarrow> int \<Rightarrow> trace
     \<Rightarrow> ((error + json list) \<times> trace) option" where
  "extract_region srv self z_layer x0 y0 xf yf w =
     extract_region_loop srv self z_layer x0 y0 xf yf w 0 []"

section \<open>Vocabulary of the statements\<close>

text \<open>
  The definitions below belong to the statements, not to the program: the requests a
  method is expected to send, the responses the remote store is supposed to give, and the
  pagination loop with its predicate as a parameter, against which the three loops of
  the source are compared.
\<close>

definition ok_status :: "http_response \<Rightarrow> bool" where
  "ok_status r = (200 \<le> status_code r \<and> status_code r \<le> 299)"

text \<open>The POST of a query for the page at \<open>offset\<close>.\<close>

definition page_request :: "JsonDatabase \<Rightarrow> json \<Rightarrow> int \<Rightarrow> request" where
  "page_request self qdata offset =
     \<lparr>verb = POST, url = baseurl self @ ''?action=query&offset='' @ str_int offset,
      auth = (user self, pword self), payload = Some qdata\<rparr>"

text \<open>The predicates of the three paginated queries.\<close>

definition layer_predicate :: "int \<Rightarrow> json" where
  "layer_predicate z_layer =
     JObj [(''geometry.coordinates[2]'', JObj [(''$eq'', JInt z_layer)])]"

definition box_predicate :: "int \<Rightarrow> int \<Rightarrow> int \<Rightarrow> int \<Rightarrow> int \<Rightarrow> json" where
  "box_predicate z_layer x0 y0 xf yf =
     JObj [(''geometry.coordinates[2]'', JObj [(''$eq'', JInt z_layer)]),
           (''geometry.coordinates[0]'', JObj [(''$between'', JList [JInt x0, JInt xf])]),
           (''geometry.coordinates[1]'', JObj [(''$between'', JList [JInt y0, JInt yf])])]"

text \<open>The requests of a paginated query that has received the pages \<open>ps\<close>, each with
  more to come: one per page, then the next one. The offset grows by the number of
  documents of each page.\<close>

fun page_requests :: "JsonDatabase \<Rightarrow> json \<Rightarrow> int \<Rightarrow> json list list \<Rightarrow> request list" where
  "page_requests self qdata offset [] = [page_request self qdata offset]"
| "page_requests self qdata offset (p # ps) =
     page_request self qdata offset
       # page_requests self qdata (offset + int (length p)) ps"

text \<open>The document of an item of a response, its \<^verbatim>\<open>value\<close> field.\<close>

fun item_value :: "json \<Rightarrow> json option" where
  "item_value (JObj kvs) = map_of kvs ''value''"
| "item_value _ = None"

text \<open>
  \<open>is_page r docs hm\<close>: \<open>r\<close> is a response of the shape the store documents, with
  an ok status and a body \<^verbatim>\<open>{items: [...], count: n, hasMore: b}\<close> whose items hold the
  documents \<open>docs\<close> in order, whose count is their number and whose flag is \<open>hm\<close>.
\<close>

definition is_page :: "http_response \<Rightarrow> json list \<Rightarrow> bool \<Rightarrow> bool" where
  "is_page r docs hm =
     (ok_status r \<and>
      (case resp_text r of
         Some (JObj b) \<Rightarrow>
           (case map_of b ''items'' of
              Some (JList its) \<Rightarrow> those (map item_value its) = Some docs
            | _ \<Rightarrow> False)
           \<and> map_of b ''count'' = Some (JInt (int (length docs)))
           \<and> map_of b ''hasMore'' = Some (JBool hm)
       | _ \<Rightarrow> False))"

text \<open>
  \<open>served srv w reqs ps\<close>: the remote store answers the first requests of \<open>reqs\<close>,
  sent one after the other from the trace \<open>w\<close> on, with the pages \<open>ps\<close> in order,
  each of them with \<^verbatim>\<open>hasMore\<close> true.
\<close>

definition served :: "remote \<Rightarrow> trace \<Rightarrow> request list \<Rightarrow> json list list \<Rightarrow> bool" where
  "served srv w reqs ps =
     list_all (\<lambda>k. is_page (srv (w @ take (Suc k) reqs)) (ps ! k) True) [0..<length ps]"

text \<open>The message of the exceptions raised on an error status: \<^verbatim>\<open>str(code) + " " + reason\<close>.\<close>

definition error_text :: "http_response \<Rightarrow> string" where
  "error_text r = str_int (status_code r) @ '' '' @ reason r"

text \<open>A response \<^verbatim>\<open>200 OK\<close> with the documents \<open>docs\<close> and the flag \<open>hm\<close>.\<close>

definition page_response :: "json list \<Rightarrow> bool \<Rightarrow> http_response" where
  "page_response docs hm =
     \<lparr>status_code = 200, reason = ''OK'',
      resp_text = Some (JObj [(''items'', JList (map (\<lambda>d. JObj [(''value'', d)]) docs)),
                              (''count'', JInt (int (length docs))),
                              (''hasMore'', JBool hm)])\<rparr>"

text \<open>Whether the body of a response carries \<^verbatim>\<open>hasMore\<close> equal to \<^verbatim>\<open>false\<close>.\<close>

definition has_more_false :: "http_response \<Rightarrow> bool" where
  "has_more_false r =
     (case resp_text r of
        Some (JObj b) \<Rightarrow> map_of b ''hasMore'' = Some (JBool False)
      | _ \<Rightarrow> False)"

text \<open>
  The responses after which a pagination loop goes on to its next request: the status is
  ok, the body is a JSON object, its \<^verbatim>\<open>count\<close> is an integer (or a boolean, which
  Python adds as 0 or 1), its \<^verbatim>\<open>items\<close>, when the count is positive, can be iterated
  and are objects, and its \<^verbatim>\<open>hasMore\<close> is true as Python tests it. After any other
  response the loop is left, by \<^verbatim>\<open>return\<close> or by an exception.
\<close>

definition dict_get :: "(string \<times> json) list \<Rightarrow> string \<Rightarrow> json" where
  "dict_get b k = (case map_of b k of None \<Rightarrow> JNull | Some v \<Rightarrow> v)"

definition readable_items :: "json \<Rightarrow> bool" where
  "readable_items v =
     (case py_iter v of
        Inl e \<Rightarrow> False
      | Inr its \<Rightarrow> (case py_get_each ''value'' its of Inl e \<Rightarrow> False | Inr vs \<Rightarrow> True))"

definition continues :: "http_response \<Rightarrow> bool" where
  "continues r =
     (ok_status r \<and>
      (case resp_text r of
         Some (JObj b) \<Rightarrow>
           (case py_int (dict_get b ''count'') of
              Inl e \<Rightarrow> False
            | Inr c \<Rightarrow>
                (if c > 0 then readable_items (dict_get b ''items'') else True)
                \<and> py_truthy (dict_get b ''hasMore''))
       | _ \<Rightarrow> False))"

text \<open>A response with an ok status whose body has \<^verbatim>\<open>count\<close> 0 and \<^verbatim>\<open>hasMore\<close>
  true, whatever else it holds.\<close>

definition zero_count_more :: "http_response \<Rightarrow> bool" where
  "zero_count_more r =
     (ok_status r \<and>
      (case resp_text r of
         Some (JObj b) \<Rightarrow>
           map_of b ''count'' = Some (JInt 0) \<and> map_of b ''hasMore'' = Some (JBool True)
       | _ \<Rightarrow> False))"

text \<open>The remote store that answers its \<open>n\<close>-th request, counted from 0, with \<open>rs n\<close>,
  and the one that answers every request with \<open>r\<close>.\<close>

definition replay :: "(nat \<Rightarrow> http_response) \<Rightarrow> remote" where
  "replay rs h = rs (length h - 1)"

definition script :: "http_response list \<Rightarrow> http_response \<Rightarrow> nat \<Rightarrow> http_response" where
  "script rs r n = (if n < length rs then rs ! n else r)"

definition every_time :: "http_response \<Rightarrow> remote" where
  "every_time r h = r"

text \<open>Example data: an object, documents, and a store that holds five documents at layer
  0 and serves them in pages of two.\<close>

definition demo_db :: JsonDatabase where
  "demo_db = \<lparr>user = ''admin'', pword = JStr ''secret'', collname = ''nuclei'',
              baseurl = ''https://db.example/ords/admin/soda/latest/nuclei''\<rparr>"

definition nucleus :: "int \<Rightarrow> json" where
  "nucleus n =
     JObj [(''type'', JStr ''Feature''),
           (''geometry'', JObj [(''type'', JStr ''Point''),
                                (''coordinates'', JList [JInt n, JInt n, JInt 0])])]"

definition demo_pages :: "nat \<Rightarrow> http_response" where
  "demo_pages =
     script [page_response [nucleus 1, nucleus 2] True,
             page_response [nucleus 3, nucleus 4] True,
             page_response [nucleus 5] False]
       (page_response [] False)"

definition demo_store :: remote where
  "demo_store = replay demo_pages"

text \<open>A store that answers every query with an empty page flagged \<^verbatim>\<open>hasMore\<close>.\<close>

definition stalled_store :: remote where
  "stalled_store = every_time (page_response [] True)"

text \<open>Responses \<^verbatim>\<open>200 OK\<close> that are not well-formed pages: one that holds a document
  and counts none, one without the \<^verbatim>\<open>hasMore\<close> key, one whose body is not JSON.\<close>

definition miscounted :: http_response where
  "miscounted =
     \<lparr>status_code = 200, reason = ''OK'',
      resp_text = Some (JObj [(''items'', JList [JObj [(''value'', nucleus 1)]]),
                              (''count'', JInt 0),
                              (''hasMore'', JBool False)])\<rparr>"

definition unflagged :: http_response where
  "unflagged =
     \<lparr>status_code = 200, reason = ''OK'',
      resp_text = Some (JObj [(''items'', JList []), (''count'', JInt 0)])\<rparr>"

definition garbled :: http_response where
  "garbled = \<lparr>status_code = 200, reason = ''OK'', resp_text = None\<rparr>"

text \<open>A store that answers two queries with an empty page flagged \<^verbatim>\<open>hasMore\<close> and the
  third with a last page of one document.\<close>

definition stalling_pages :: "nat \<Rightarrow> http_response" where
  "stalling_pages =
     script [page_response [] True, page_response [] True, page_response [nucleus 1] False]
       (page_response [] False)"

text \<open>A store that serves one page and is then unavailable, and the responses
  \<^verbatim>\<open>500\<close> and \<^verbatim>\<open>503\<close>.\<close>

definition unavailable :: http_response where
  "unavailable = \<lparr>status_code = 503, reason = ''Service Unavailable'', resp_text = None\<rparr>"

definition server_error :: http_response where
  "server_error = \<lparr>status_code = 500, reason = ''Internal Server Error'', resp_text = None\<rparr>"

definition failing_pages :: "nat \<Rightarrow> http_response" where
  "failing_pages = script [page_response [nucleus 1, nucleus 2] True] unavailable"

definition flaky_store :: remote where
  "flaky_store = replay (script [page_response [nucleus 1, nucleus 2] True] unavailable)"

text \<open>The requests of the metadata and collection operations: the query for the
  metadata document, the insert of the metadata \<open>m\<close>, the listing of the collections, the
  DELETE and the PUT of the collection.\<close>

definition metadata_query :: "JsonDatabase \<Rightarrow> request" where
  "metadata_query self =
     \<lparr>verb = POST, url = baseurl self @ ''?action=query'',
      auth = (user self, pword self),
      payload = Some (JObj [(''type'', JObj [(''$eq'', JStr ''Metadata'')])])\<rparr>"

definition metadata_insert :: "JsonDatabase \<Rightarrow> json \<Rightarrow> request" where
  "metadata_insert self m =
     \<lparr>verb = POST, url = baseurl self, auth = (user self, pword self),
      payload = Some (JObj [(''type'', JStr ''Metadata''), (''content'', m)])\<rparr>"

definition listing_request :: "string \<Rightarrow> JsonDatabase \<Rightarrow> request" where
  "listing_request DB_BASE_URL self =
     \<lparr>verb = GET, url = DB_BASE_URL @ user self @ ''/soda/latest'',
      auth = (user self, pword self), payload = None\<rparr>"


definition put_request :: "JsonDatabase \<Rightarrow> request" where
  "put_request self =
     \<lparr>verb = PUT, url = baseurl self, auth = (user self, pword self), payload = None\<rparr>"

text \<open>
  \<open>counts r c\<close>: the response \<open>r\<close> has an ok status and a body that gives \<open>c\<close> as
  the number of results. \<open>first_document r d\<close>: the first item of its body holds the
  document \<open>d\<close>, a JSON object, under \<^verbatim>\<open>value\<close>.
\<close>

definition counts :: "http_response \<Rightarrow> int \<Rightarrow> bool" where
  "counts r c =
     (ok_status r \<and>
      (case resp_text r of
         Some (JObj b) \<Rightarrow> map_of b ''count'' = Some (JInt c)
       | _ \<Rightarrow> False))"

definition first_document :: "http_response \<Rightarrow> (string \<times> json) list \<Rightarrow> bool" where
  "first_document r d =
     (case resp_text r of
        Some (JObj b) \<Rightarrow>
          (case map_of b ''items'' of
             Some (JList (JObj it # rest)) \<Rightarrow> map_of it ''value'' = Some (JObj d)
           | _ \<Rightarrow> False)
      | _ \<Rightarrow> False)"

text \<open>The object \<^verbatim>\<open>__init__\<close> builds.\<close>

definition object :: "string \<Rightarrow> string \<Rightarrow> json \<Rightarrow> string \<Rightarrow> JsonDatabase" where
  "object DB_BASE_URL u p c =
     \<lparr>user = u, pword = p, collname = c, baseurl = DB_BASE_URL @ u @ ''/soda/latest/'' @ c\<rparr>"

text \<open>More example data: the responses \<^verbatim>\<open>201\<close>, \<^verbatim>\<open>200\<close> without a body and
  \<^verbatim>\<open>101\<close>, a listing that names the collections \<^verbatim>\<open>nuclei\<close> and \<^verbatim>\<open>cells\<close>, and the
  metadata document whose content is the empty mapping.\<close>

definition created :: http_response where
  "created = \<lparr>status_code = 201, reason = ''Created'', resp_text = None\<rparr>"

definition deleted :: http_response where
  "deleted = \<lparr>status_code = 200, reason = ''OK'', resp_text = None\<rparr>"

definition switching :: http_response where
  "switching = \<lparr>status_code = 101, reason = ''Switching Protocols'', resp_text = None\<rparr>"

definition listing :: http_response where
  "listing =
     \<lparr>status_code = 200, reason = ''OK'',
      resp_text = Some (JObj [(''items'', JList [JObj [(''name'', JStr ''nuclei'')],
                                                  JObj [(''name'', JStr ''cells'')]]),
                              (''hasMore'', JBool False)])\<rparr>"

definition demo_url :: string where
  "demo_url = ''https://db.example/ords/''"

definition empty_metadata :: json where
  "empty_metadata = JObj [(''type'', JStr ''Metadata''), (''content'', JObj [])]"

definition block_metadata :: json where
  "block_metadata = JObj [(''block_name'', JStr ''b123''), (''patch_id'', JStr ''p123'')]"

definition metadata_document :: "(string \<times> json) list" where
  "metadata_document = [(''type'', JStr ''Metadata''), (''content'', block_metadata)]"

text \<open>Stores that answer the metadata query with no document, with one document, with
  two documents, and with the document whose content is empty; the first and the last
  accept the insert that follows.\<close>

definition no_meta_store :: remote where
  "no_meta_store = replay (script [page_response [] False, created] server_error)"

definition one_meta_store :: remote where
  "one_meta_store = replay (script [page_response [JObj metadata_document] False] server_error)"

definition two_meta_store :: remote where
  "two_meta_store =
     replay (script [page_response [JObj metadata_document, JObj metadata_document] False]
               server_error)"

definition empty_meta_store :: remote where
  "empty_meta_store = replay (script [page_response [empty_metadata] False, created] server_error)"

text \<open>A store with a fresh collection, as it answers two calls of \<^verbatim>\<open>add_metadata\<close> with
  the empty mapping: no metadata document, the insert accepted, the document just
  inserted, the second insert accepted.\<close>

definition fresh_store :: remote where
  "fresh_store =
     replay (script [page_response [] False, created,
                     page_response [empty_metadata] False, created] server_error)"

text \<open>A store that lists two collections and answers the PUT that follows with
  \<^verbatim>\<open>101\<close>; one that accepts the DELETE and the PUT after the listing; one that accepts
  the PUT right after the listing.\<close>

definition switching_store :: remote where
  "switching_store = replay (script [listing, switching] server_error)"

definition overwriting_store :: remote where
  "overwriting_store = replay (script [listing, deleted, created] server_error)"

definition creating_store :: remote where
  "creating_store = replay (script [listing, created] server_error)"

text \<open>A store that lists the two collections and refuses what follows.\<close>

definition refusing_store :: remote where
  "refusing_store = replay (script [listing] unavailable)"

text \<open>The reply \<^verbatim>\<open>__make_post_request\<close> and \<^verbatim>\<open>__make_get_request\<close> make of a
  response.\<close>

definition classify :: "http_response \<Rightarrow> reply" where
  "classify r =
     (if ok_status r then StatusOk (status_code r) (resp_text r)
      else StatusError (status_code r) (reason r))"

text \<open>One turn of a pagination loop that continues as \<open>k\<close>.\<close>

definition turn ::
  "(trace \<Rightarrow> int \<Rightarrow> json list \<Rightarrow> ((error + json list) \<times> trace) option)
     \<Rightarrow> remote \<Rightarrow> JsonDatabase \<Rightarrow> json \<Rightarrow> trace \<Rightarrow> int \<Rightarrow> json list
     \<Rightarrow> ((error + json list) \<times> trace) option" where
  "turn k srv self qdata w offset items =
     (case page_step (classify (srv (w @ [page_request self qdata offset]))) offset items of
        Inl e \<Rightarrow> Some (Inl e, w @ [page_request self qdata offset])
      | Inr (has_more, offset', items') \<Rightarrow>
          if py_truthy has_more
          then k (w @ [page_request self qdata offset]) offset' items'
          else Some (Inr items', w @ [page_request self qdata offset]))"

text \<open>The pagination loop for any predicate \<open>qdata\<close>.\<close>

partial_function (option) query_loop ::
  "remote \<Rightarrow> JsonDatabase \<Rightarrow> json \<Rightarrow> trace \<Rightarrow> int \<Rightarrow> json list
     \<Rightarrow> ((error + json list) \<times> trace) option" where
  "query_loop srv self qdata w offset items =
     (case page_step (classify (srv (w @ [page_request self qdata offset]))) offset items of
        Inl e \<Rightarrow> Some (Inl e, w @ [page_request self qdata offset])
      | Inr (has_more, offset', items') \<Rightarrow>
          if py_truthy has_more
          then query_loop srv self qdata (w @ [page_request self qdata offset]) offset' items'
          else Some (Inr items', w @ [page_request self qdata offset]))"

section \<open>The transport and the pagination loops\<close>


lemma make_post_request_eq:
  "make_post_request srv self target_url payload_dict w =
     (classify (srv (w @ [\<lparr>verb = POST, url = target_url, auth = (user self, pword self),
                            payload = Some payload_dict\<rparr>])),
      w @ [\<lparr>verb = POST, url = target_url, auth = (user self, pword self),
             payload = Some payload_dict\<rparr>])"
  by (simp add: make_post_request_def classify_def ok_status_def Let_def)

lemma make_post_request_page:
  "make_post_request srv self (baseurl self @ ''?action=query&offset='' @ str_int offset) q w =
     (classify (srv (w @ [page_request self q offset])), w @ [page_request self q offset])"
  by (simp only: make_post_request_eq page_request_def)

lemma turn_mono:
  assumes "turn k srv self q w offset items = Some y"
    and "\<And>w' offset' items'. k w' offset' items' = Some y \<Longrightarrow> k' w' offset' items' = Some y"
  shows "turn k' srv self q w offset items = Some y"
proof (cases "page_step (classify (srv (w @ [page_request self q offset]))) offset items")
  case (Inl e)
  with assms(1) show ?thesis by (simp add: turn_def)
next
  case (Inr t)
  obtain hm offset' items' where t: "t = (hm, offset', items')" by (cases t)
  show ?thesis
  proof (cases "py_truthy hm")
    case True
    with assms(1) Inr t have "k (w @ [page_request self q offset]) offset' items' = Some y"
      by (simp add: turn_def)
    then have "k' (w @ [page_request self q offset]) offset' items' = Some y"
      by (rule assms(2))
    with Inr t True show ?thesis by (simp add: turn_def)
  next
    case False
    with assms(1) Inr t show ?thesis by (simp add: turn_def)
  qed
qed

lemma query_loop_turn:
  "query_loop srv self q w offset items = turn (query_loop srv self q) srv self q w offset items"
  by (subst query_loop.simps) (simp only: turn_def)

lemma extract_items_loop_turn:
  "extract_items_loop srv self z w offset items =
     turn (extract_items_loop srv self z) srv self (layer_predicate z) w offset items"
  by (subst extract_items_loop.simps)
     (simp only: Let_def make_post_request_page layer_predicate_def prod.case turn_def)

lemma items_loop_le:
  "extract_items_loop srv self z w offset items = Some y \<Longrightarrow>
   query_loop srv self (layer_predicate z) w offset items = Some y"
proof (induction rule: extract_items_loop.raw_induct [rotated 1, consumes 1, case_names step])
  case (step f srv self z w offset items y)
  from step.hyps have "turn (f srv self z) srv self (layer_predicate z) w offset items = Some y"
    by (simp only: Let_def make_post_request_page layer_predicate_def prod.case turn_def)
  then have "turn (query_loop srv self (layer_predicate z)) srv self (layer_predicate z)
               w offset items = Some y"
    by (rule turn_mono) (rule step.IH)
  then show ?case by (simp only: query_loop_turn [symmetric])
qed

lemma items_loop_ge:
  "query_loop srv self q w offset items = Some y \<Longrightarrow>
   q = layer_predicate z \<longrightarrow> extract_items_loop srv self z w offset items = Some y"
proof (induction rule: query_loop.raw_induct [rotated 1, consumes 1, case_names step])
  case (step f srv self q w offset items y)
  show ?case
  proof
    assume q: "q = layer_predicate z"
    from step.hyps have "turn (f srv self q) srv self q w offset items = Some y"
      by (simp only: turn_def)
    then have "turn (extract_items_loop srv self z) srv self q w offset items = Some y"
      using step.IH q by (rule_tac turn_mono) blast+
    with q show "extract_items_loop srv self z w offset items = Some y"
      by (simp only: extract_items_loop_turn [symmetric])
  qed
qed

lemma option_eqI:
  fixes a b :: "'a option"
  assumes "\<And>y. a = Some y \<Longrightarrow> b = Some y" and "\<And>y. b = Some y \<Longrightarrow> a = Some y"
  shows "a = b"
  using assms by (cases a; cases b) auto

lemma extract_items_loop_eq:
  "extract_items_loop srv self z w offset items =
   query_loop srv self (layer_predicate z) w offset items"
  by (rule option_eqI) (blast intro: items_loop_le dest: items_loop_ge)+


lemma py_get_each_values:
  "those (map item_value its) = Some docs \<Longrightarrow> py_get_each ''value'' its = Inr docs"
proof (induction its arbitrary: docs)
  case Nil
  then show ?case by simp
next
  case (Cons it its)
  from Cons.prems obtain d ds where d: "item_value it = Some d"
    and ds: "those (map item_value its) = Some ds" and docs: "docs = d # ds"
    by (auto split: option.splits)
  from d obtain kvs where it: "it = JObj kvs" and v: "map_of kvs ''value'' = Some d"
    by (cases it) auto
  from Cons.IH [OF ds] it v docs show ?case by simp
qed

lemma page_step_page:
  assumes "is_page r docs hm"
  shows "page_step (classify r) offset items =
           Inr (JBool hm, offset + int (length docs), items @ docs)"
proof -
  from assms have ok: "ok_status r" by (simp add: is_page_def)
  from assms obtain b where b: "resp_text r = Some (JObj b)"
    by (auto simp: is_page_def split: option.splits json.splits)
  from assms b obtain its where its: "map_of b ''items'' = Some (JList its)"
    and vs: "those (map item_value its) = Some docs"
    by (auto simp: is_page_def split: option.splits json.splits)
  from assms b have c: "map_of b ''count'' = Some (JInt (int (length docs)))"
    and h: "map_of b ''hasMore'' = Some (JBool hm)"
    by (auto simp: is_page_def)
  from py_get_each_values [OF vs] ok b its c h show ?thesis
    by (cases docs) (simp_all add: page_step_def classify_def)
qed

lemma page_step_error:
  assumes "\<not> ok_status r"
  shows "page_step (classify r) offset items =
           Inl (DatabaseUnableToExtractData (str_int (status_code r) @ '' '' @ reason r))"
  using assms by (simp add: page_step_def classify_def)

lemma query_loop_more:
  assumes "is_page (srv (w @ [page_request self q offset])) docs True"
  shows "query_loop srv self q w offset items =
           query_loop srv self q (w @ [page_request self q offset])
             (offset + int (length docs)) (items @ docs)"
  by (subst query_loop.simps) (simp add: page_step_page [OF assms])

lemma query_loop_last:
  assumes "is_page (srv (w @ [page_request self q offset])) docs False"
  shows "query_loop srv self q w offset items =
           Some (Inr (items @ docs), w @ [page_request self q offset])"
  by (subst query_loop.simps) (simp add: page_step_page [OF assms])

lemma query_loop_error:
  assumes "\<not> ok_status (srv (w @ [page_request self q offset]))"
  shows "query_loop srv self q w offset items =
           Some (Inl (DatabaseUnableToExtractData
                   (str_int (status_code (srv (w @ [page_request self q offset]))) @ '' ''
                      @ reason (srv (w @ [page_request self q offset])))),
                 w @ [page_request self q offset])"
  by (subst query_loop.simps) (simp add: page_step_error [OF assms])

lemma page_requests_nonempty: "page_requests self q offset ps \<noteq> []"
  by (cases ps) simp_all

lemma last_page_requests:
  "last (page_requests self q offset ps) =
     page_request self q (offset + int (length (concat ps)))"
  by (induction ps arbitrary: offset) (simp_all add: add.assoc page_requests_nonempty)

lemma page_requests_last:
  "butlast (page_requests self q offset ps)
     @ [page_request self q (offset + int (length (concat ps)))] =
   page_requests self q offset ps"
  using append_butlast_last_id [OF page_requests_nonempty, of self q offset ps]
  by (simp only: last_page_requests)

lemma query_loop_pages:
  assumes "\<forall>k<length ps. is_page (srv (w @ take (Suc k) (page_requests self q offset ps)))
             (ps ! k) True"
  shows "query_loop srv self q w offset items =
           query_loop srv self q (w @ butlast (page_requests self q offset ps))
             (offset + int (length (concat ps))) (items @ concat ps)"
  using assms
proof (induction ps arbitrary: w offset items)
  case Nil
  show ?case by simp
next
  case (Cons p ps)
  from Cons.prems have first: "is_page (srv (w @ [page_request self q offset])) p True"
    by fastforce
  have rest: "\<forall>k<length ps.
      is_page (srv ((w @ [page_request self q offset])
                 @ take (Suc k) (page_requests self q (offset + int (length p)) ps)))
        (ps ! k) True"
  proof (intro allI impI)
    fix k assume "k < length ps"
    then have "Suc k < length (p # ps)" by simp
    with Cons.prems have "is_page (srv (w @ take (Suc (Suc k))
        (page_requests self q offset (p # ps)))) ((p # ps) ! Suc k) True"
      by blast
    then show "is_page (srv ((w @ [page_request self q offset])
                 @ take (Suc k) (page_requests self q (offset + int (length p)) ps)))
        (ps ! k) True"
      by simp
  qed
  from first have "query_loop srv self q w offset items =
      query_loop srv self q (w @ [page_request self q offset])
        (offset + int (length p)) (items @ p)"
    by (rule query_loop_more)
  with Cons.IH [OF rest, of "items @ p"]
    page_requests_nonempty [of self q "offset + int (length p)" ps]
  show ?case by (simp add: add.assoc)
qed

lemma query_loop_returns:
  assumes "\<forall>k<length ps. is_page (srv (w @ take (Suc k) (page_requests self q offset ps)))
             (ps ! k) True"
    and "is_page (srv (w @ page_requests self q offset ps)) lastp False"
  shows "query_loop srv self q w offset items =
           Some (Inr (items @ concat ps @ lastp), w @ page_requests self q offset ps)"
proof -
  let ?w = "w @ butlast (page_requests self q offset ps)"
  let ?o = "offset + int (length (concat ps))"
  have eq: "?w @ [page_request self q ?o] = w @ page_requests self q offset ps"
    using page_requests_last [of self q offset ps] by simp
  with assms(2) have "is_page (srv (?w @ [page_request self q ?o])) lastp False"
    by simp
  then have "query_loop srv self q ?w ?o (items @ concat ps) =
               Some (Inr ((items @ concat ps) @ lastp), ?w @ [page_request self q ?o])"
    by (rule query_loop_last)
  with eq show ?thesis by (simp add: query_loop_pages [OF assms(1)])
qed

lemma query_loop_aborts:
  assumes "\<forall>k<length ps. is_page (srv (w @ take (Suc k) (page_requests self q offset ps)))
             (ps ! k) True"
    and "\<not> ok_status (srv (w @ page_requests self q offset ps))"
  shows "query_loop srv self q w offset items =
           Some (Inl (DatabaseUnableToExtractData
                   (str_int (status_code (srv (w @ page_requests self q offset ps))) @ '' ''
                      @ reason (srv (w @ page_requests self q offset ps)))),
                 w @ page_requests self q offset ps)"
proof -
  let ?w = "w @ butlast (page_requests self q offset ps)"
  let ?o = "offset + int (length (concat ps))"
  have eq: "?w @ [page_request self q ?o] = w @ page_requests self q offset ps"
    using page_requests_last [of self q offset ps] by simp
  with assms(2) have "\<not> ok_status (srv (?w @ [page_request self q ?o]))"
    by simp
  then have "query_loop srv self q ?w ?o (items @ concat ps) =
               Some (Inl (DatabaseUnableToExtractData
                       (str_int (status_code (srv (?w @ [page_request self q ?o]))) @ '' ''
                          @ reason (srv (?w @ [page_request self q ?o])))),
                     ?w @ [page_request self q ?o])"
    by (rule query_loop_error)
  with eq show ?thesis by (simp add: query_loop_pages [OF assms(1)])
qed


lemma extract_tile_data_loop_turn:
  "extract_tile_data_loop srv self z x0 y0 xf yf w offset items =
     turn (extract_tile_data_loop srv self z x0 y0 xf yf) srv self
       (box_predicate z x0 y0 xf yf) w offset items"
  by (subst extract_tile_data_loop.simps)
     (simp only: Let_def make_post_request_page box_predicate_def prod.case turn_def)

lemma tile_loop_le:
  "extract_tile_data_loop srv self z x0 y0 xf yf w offset items = Some y \<Longrightarrow>
   query_loop srv self (box_predicate z x0 y0 xf yf) w offset items = Some y"
proof (induction rule: extract_tile_data_loop.raw_induct [rotated 1, consumes 1, case_names step])
  case (step f srv self z x0 y0 xf yf w offset items y)
  from step.hyps
  have "turn (f srv self z x0 y0 xf yf) srv self (box_predicate z x0 y0 xf yf)
          w offset items = Some y"
    by (simp only: Let_def make_post_request_page box_predicate_def prod.case turn_def)
  then have "turn (query_loop srv self (box_predicate z x0 y0 xf yf)) srv self
               (box_predicate z x0 y0 xf yf) w offset items = Some y"
    by (rule turn_mono) (rule step.IH)
  then show ?case by (simp only: query_loop_turn [symmetric])
qed

lemma tile_loop_ge:
  "query_loop srv self q w offset items = Some y \<Longrightarrow>
   q = box_predicate z x0 y0 xf yf \<longrightarrow>
   extract_tile_data_loop srv self z x0 y0 xf yf w offset items = Some y"
proof (induction rule: query_loop.raw_induct [rotated 1, consumes 1, case_names step])
  case (step f srv self q w offset items y)
  show ?case
  proof
    assume q: "q = box_predicate z x0 y0 xf yf"
    from step.hyps have "turn (f srv self q) srv self q w offset items = Some y"
      by (simp only: turn_def)
    then have "turn (extract_tile_data_loop srv self z x0 y0 xf yf) srv self q
                 w offset items = Some y"
      using step.IH q by (rule_tac turn_mono) blast+
    with q show "extract_tile_data_loop srv self z x0 y0 xf yf w offset items = Some y"
      by (simp only: extract_tile_data_loop_turn [symmetric])
  qed
qed

lemma extract_tile_data_loop_eq:
  "extract_tile_data_loop srv self z x0 y0 xf yf w offset items =
   query_loop srv self (box_predicate z x0 y0 xf yf) w offset items"
  by (rule option_eqI) (blast intro: tile_loop_le dest: tile_loop_ge)+

lemma extract_region_loop_turn:
  "extract_region_loop srv self z x0 y0 xf yf w offset items =
     turn (extract_region_loop srv self z x0 y0 xf yf) srv self
       (box_predicate z x0 y0 xf yf) w offset items"
  by (subst extract_region_loop.simps)
     (simp only: Let_def make_post_request_page box_predicate_def prod.case turn_def)

lemma region_loop_le:
  "extract_region_loop srv self z x0 y0 xf yf w offset items = Some y \<Longrightarrow>
   query_loop srv self (box_predicate z x0 y0 xf yf) w offset items = Some y"
proof (induction rule: extract_region_loop.raw_induct [rotated 1, consumes 1, case_names step])
  case (step f srv self z x0 y0 xf yf w offset items y)
  from step.hyps
  have "turn (f srv self z x0 y0 xf yf) srv self (box_predicate z x0 y0 xf yf)
          w offset items = Some y"
    by (simp only: Let_def make_post_request_page box_predicate_def prod.case turn_def)
  then have "turn (query_loop srv self (box_predicate z x0 y0 xf yf)) srv self
               (box_predicate z x0 y0 xf yf) w offset items = Some y"
    by (rule turn_mono) (rule step.IH)
  then show ?case by (simp only: query_loop_turn [symmetric])
qed

lemma region_loop_ge:
  "query_loop srv self q w offset items = Some y \<Longrightarrow>
   q = box_predicate z x0 y0 xf yf \<longrightarrow>
   extract_region_loop srv self z x0 y0 xf yf w offset items = Some y"
proof (induction rule: query_loop.raw_induct [rotated 1, consumes 1, case_names step])
  case (step f srv self q w offset items y)
  show ?case
  proof
    assume q: "q = box_predicate z x0 y0 xf yf"
    from step.hyps have "turn (f srv self q) srv self q w offset items = Some y"
      by (simp only: turn_def)
    then have "turn (extract_region_loop srv self z x0 y0 xf yf) srv self q
                 w offset items = Some y"
      using step.IH q by (rule_tac turn_mono) blast+
    with q show "extract_region_loop srv self z x0 y0 xf yf w offset items = Some y"
      by (simp only: extract_region_loop_turn [symmetric])
  qed
qed

lemma extract_region_loop_eq:
  "extract_region_loop srv self z x0 y0 xf yf w offset items =
   query_loop srv self (box_predicate z x0 y0 xf yf) w offset items"
  by (rule option_eqI) (blast intro: region_loop_le dest: region_loop_ge)+

lemma extract_items_query: 
  "extract_items srv self z w = query_loop srv self (layer_predicate z) w 0 []"
  by (simp add: extract_items_def extract_items_loop_eq)

lemma extract_tile_data_query:
  "extract_tile_data srv self z x0 y0 ts w =
     query_loop srv self (box_predicate z x0 y0 (x0 + ts - 1) (y0 + ts - 1)) w 0 []"
  by (simp add: extract_tile_data_def extract_tile_data_loop_eq)

lemma extract_region_query:
  "extract_region srv self z x0 y0 xf yf w =
     query_loop srv self (box_predicate z x0 y0 xf yf) w 0 []"
  by (simp add: extract_region_def extract_region_loop_eq)

lemma served_iff:
  "served srv w reqs ps \<longleftrightarrow>
     (\<forall>k<length ps. is_page (srv (w @ take (Suc k) reqs)) (ps ! k) True)"
  by (auto simp: served_def list_all_iff)

lemma query_loop_served_returns:
  assumes "served srv w (page_requests self q 0 ps) ps"
    and "is_page (srv (w @ page_requests self q 0 ps)) lastp False"
  shows "query_loop srv self q w 0 [] =
           Some (Inr (concat ps @ lastp), w @ page_requests self q 0 ps)"
  using query_loop_returns [of ps srv w self q 0 lastp "[]"] assms
  by (simp add: served_iff)

lemma query_loop_served_aborts:
  assumes "served srv w (page_requests self q 0 ps) ps"
    and "\<not> ok_status (srv (w @ page_requests self q 0 ps))"
  shows "query_loop srv self q w 0 [] =
           Some (Inl (DatabaseUnableToExtractData
                        (error_text (srv (w @ page_requests self q 0 ps)))),
                 w @ page_requests self q 0 ps)"
  using query_loop_aborts [of ps srv w self q 0 "[]"] assms
  by (simp add: served_iff error_text_def)

lemma those_item_values:
  "those (map (item_value \<circ> (\<lambda>d. JObj [(''value'', d)])) docs) = Some docs"
  by (induction docs) simp_all

lemma is_page_page_response: "is_page (page_response docs hm) docs hm"
  by (simp add: is_page_def page_response_def ok_status_def those_item_values)


section \<open>The claims\<close>

text \<open>
  Claim C10, as amended. Constructing a \<^verbatim>\<open>JsonDatabase\<close> with the create flag unset,
  for a user and a collection name that are strings and any password, sends no request
  (the trace is returned as it was) and succeeds, whatever the remote store is and
  whatever it holds: the object only stores the credentials and the base URL derived from
  the user and the collection name.
\<close>

theorem init_without_create:
  "init DB_BASE_URL srv (JStr u) p (JStr c) False overwrite w =
     (Inr \<lparr>user = u, pword = p, collname = c,
            baseurl = DB_BASE_URL @ u @ ''/soda/latest/'' @ c\<rparr>, w)"
  by (simp add: init_def)

text \<open>
  The claim as it is written fails: with the user \<^verbatim>\<open>None\<close>, which the example script
  passes when \<^verbatim>\<open>AJDUSER\<close> is not set, the construction raises TypeError.
\<close>

theorem init_none_user:
  "init ''https://db.example/ords/'' (every_time server_error) JNull (JStr ''secret'')
     (JStr ''nuclei'') False False [] = (Inl TypeError, [])"
  by (simp add: init_def)

text \<open>
  Claim C7. For every \<open>z_layer\<close>, \<open>x0\<close>, \<open>y0\<close> and \<open>tile_size\<close>, against the same
  remote store and from the same trace, \<^verbatim>\<open>extract_tile_data\<close> sends the requests and
  returns the result (or fails to return) that \<^verbatim>\<open>extract_region\<close> does for the box
  \<open>[x0, x0 + tile_size - 1] \<times> [y0, y0 + tile_size - 1]\<close>, and it is the pagination
  loop run with the predicate made of the layer equality and the two inclusive ranges.
\<close>

theorem tile_is_region:
  "extract_tile_data srv self z x0 y0 tile_size w =
     extract_region srv self z x0 y0 (x0 + tile_size - 1) (y0 + tile_size - 1) w
   \<and> extract_tile_data srv self z x0 y0 tile_size w =
     query_loop srv self
       (JObj [(''geometry.coordinates[2]'', JObj [(''$eq'', JInt z)]),
              (''geometry.coordinates[0]'',
                 JObj [(''$between'', JList [JInt x0, JInt (x0 + tile_size - 1)])]),
              (''geometry.coordinates[1]'',
                 JObj [(''$between'', JList [JInt y0, JInt (y0 + tile_size - 1)])])])
       w 0 []"
  by (simp add: extract_tile_data_query extract_region_query box_predicate_def)

text \<open>
  Claim C2, as amended. When the remote store answers the successive page requests of
  \<^verbatim>\<open>extract_items\<close> with well-formed pages (an ok status, a count equal to the number
  of items, every item holding its document under \<^verbatim>\<open>value\<close>, a boolean
  \<^verbatim>\<open>hasMore\<close>), first the pages \<open>ps\<close>, each flagged \<^verbatim>\<open>hasMore\<close>, and then a page
  whose flag is false, the method sends exactly one request per page, all with the layer
  equality predicate and with offsets that start at 0 and grow by the number of documents
  of each page, stops after the page with the false flag, and returns the documents of
  all the pages in order of arrival.
\<close>

theorem extract_items_pages:
  assumes "served srv w (page_requests self (layer_predicate z) 0 ps) ps"
    and "is_page (srv (w @ page_requests self (layer_predicate z) 0 ps)) lastp False"
  shows "extract_items srv self z w =
           Some (Inr (concat ps @ lastp), w @ page_requests self (layer_predicate z) 0 ps)"
  using assms by (simp add: extract_items_query query_loop_served_returns)


text \<open>Five documents in pages of two: three requests, at the offsets 0, 2 and 4.\<close>

theorem extract_items_pages_witness:
  "served demo_store []
     (page_requests demo_db (layer_predicate 0) 0 [[nucleus 1, nucleus 2], [nucleus 3, nucleus 4]])
     [[nucleus 1, nucleus 2], [nucleus 3, nucleus 4]]
   \<and> is_page (demo_store ([] @ page_requests demo_db (layer_predicate 0) 0
                  [[nucleus 1, nucleus 2], [nucleus 3, nucleus 4]])) [nucleus 5] False
   \<and> extract_items demo_store demo_db 0 [] =
       Some (Inr [nucleus 1, nucleus 2, nucleus 3, nucleus 4, nucleus 5],
             [page_request demo_db (layer_predicate 0) 0,
              page_request demo_db (layer_predicate 0) 2,
              page_request demo_db (layer_predicate 0) 4])"
proof -
  have h1: "served demo_store []
     (page_requests demo_db (layer_predicate 0) 0 [[nucleus 1, nucleus 2], [nucleus 3, nucleus 4]])
     [[nucleus 1, nucleus 2], [nucleus 3, nucleus 4]]"
    by (simp add: served_def demo_store_def demo_pages_def replay_def script_def
          is_page_page_response upt_rec)
  have h2: "is_page (demo_store ([] @ page_requests demo_db (layer_predicate 0) 0
                  [[nucleus 1, nucleus 2], [nucleus 3, nucleus 4]])) [nucleus 5] False"
    by (simp add: demo_store_def demo_pages_def replay_def script_def is_page_page_response)
  from extract_items_pages [OF h1 h2] h1 h2 show ?thesis by simp
qed

text \<open>
  The claim C2 as it is written, for every sequence of ok responses, fails: an ok response
  that holds a document and counts none makes \<^verbatim>\<open>extract_items\<close> return no document
  (the documents are taken only when the count is positive), and an ok response without
  the \<^verbatim>\<open>hasMore\<close> key stops it though no flag is false.
\<close>

theorem extract_items_miscounted:
  "ok_status miscounted
   \<and> extract_items (every_time miscounted) demo_db 0 [] =
       Some (Inr [], [page_request demo_db (layer_predicate 0) 0])
   \<and> ok_status unflagged
   \<and> \<not> has_more_false unflagged
   \<and> extract_items (every_time unflagged) demo_db 0 [] =
       Some (Inr [], [page_request demo_db (layer_predicate 0) 0])"
proof (intro conjI)
  show "extract_items (every_time miscounted) demo_db 0 [] =
       Some (Inr [], [page_request demo_db (layer_predicate 0) 0])"
    unfolding extract_items_query
    by (subst query_loop.simps)
       (simp add: every_time_def miscounted_def page_step_def classify_def ok_status_def)
  show "extract_items (every_time unflagged) demo_db 0 [] =
       Some (Inr [], [page_request demo_db (layer_predicate 0) 0])"
    unfolding extract_items_query
    by (subst query_loop.simps)
       (simp add: every_time_def unflagged_def page_step_def classify_def ok_status_def)
  show "ok_status miscounted" by (simp add: ok_status_def miscounted_def)
  show "ok_status unflagged" by (simp add: ok_status_def unflagged_def)
  show "\<not> has_more_false unflagged"
    by (simp add: has_more_false_def unflagged_def)
qed

text \<open>
  Claim C6. In each of the three paginated extracts, when the remote store has answered
  any number of page requests with pages flagged \<^verbatim>\<open>hasMore\<close> and answers the next one
  with a status that is not ok, the method ends there by raising the extract-data error
  with the status code and the reason of that response; what it returns is the exception
  alone, and none of the documents of the earlier pages.
\<close>

theorem paginated_extract_aborts:
  "(served srv w (page_requests self (layer_predicate z) 0 ps) ps
      \<and> \<not> ok_status (srv (w @ page_requests self (layer_predicate z) 0 ps))
    \<longrightarrow> extract_items srv self z w =
          Some (Inl (DatabaseUnableToExtractData
                       (error_text (srv (w @ page_requests self (layer_predicate z) 0 ps)))),
                w @ page_requests self (layer_predicate z) 0 ps))
   \<and> (served srv w
         (page_requests self
            (box_predicate z x0 y0 (x0 + tile_size - 1) (y0 + tile_size - 1)) 0 ps) ps
      \<and> \<not> ok_status (srv (w @ page_requests self
            (box_predicate z x0 y0 (x0 + tile_size - 1) (y0 + tile_size - 1)) 0 ps))
    \<longrightarrow> extract_tile_data srv self z x0 y0 tile_size w =
          Some (Inl (DatabaseUnableToExtractData
                       (error_text (srv (w @ page_requests self
                          (box_predicate z x0 y0 (x0 + tile_size - 1) (y0 + tile_size - 1))
                          0 ps)))),
                w @ page_requests self
                      (box_predicate z x0 y0 (x0 + tile_size - 1) (y0 + tile_size - 1)) 0 ps))
   \<and> (served srv w (page_requests self (box_predicate z x0 y0 xf yf) 0 ps) ps
      \<and> \<not> ok_status (srv (w @ page_requests self (box_predicate z x0 y0 xf yf) 0 ps))
    \<longrightarrow> extract_region srv self z x0 y0 xf yf w =
          Some (Inl (DatabaseUnableToExtractData
                       (error_text (srv (w @ page_requests self
                          (box_predicate z x0 y0 xf yf) 0 ps)))),
                w @ page_requests self (box_predicate z x0 y0 xf yf) 0 ps))"
  by (simp add: extract_items_query extract_tile_data_query extract_region_query
        query_loop_served_aborts)

lemma flaky_store_served: "served flaky_store [] (page_requests demo_db q 0 [[nucleus 1, nucleus 2]])
      [[nucleus 1, nucleus 2]]"
  by (simp add: served_def flaky_store_def replay_def script_def is_page_page_response)

lemma flaky_store_fails:
  "flaky_store ([] @ page_requests demo_db q 0 [[nucleus 1, nucleus 2]]) = unavailable"
  by (simp add: flaky_store_def replay_def script_def)

lemma unavailable_error: "\<not> ok_status unavailable" "error_text unavailable = ''503 Service Unavailable''"
  by (simp_all add: ok_status_def unavailable_def error_text_def str_int_def str_nat.simps)

text \<open>One page of two documents, then \<^verbatim>\<open>503\<close>.\<close>

theorem paginated_extract_aborts_witness:
  "served flaky_store [] (page_requests demo_db (layer_predicate 0) 0 [[nucleus 1, nucleus 2]])
      [[nucleus 1, nucleus 2]]
   \<and> \<not> ok_status (flaky_store ([] @ page_requests demo_db (layer_predicate 0) 0
                                      [[nucleus 1, nucleus 2]]))
   \<and> extract_items flaky_store demo_db 0 [] =
        Some (Inl (DatabaseUnableToExtractData ''503 Service Unavailable''),
              [page_request demo_db (layer_predicate 0) 0,
               page_request demo_db (layer_predicate 0) 2])
   \<and> served flaky_store [] (page_requests demo_db (box_predicate 0 0 0 255 255) 0
                               [[nucleus 1, nucleus 2]]) [[nucleus 1, nucleus 2]]
   \<and> \<not> ok_status (flaky_store ([] @ page_requests demo_db (box_predicate 0 0 0 255 255) 0
                                      [[nucleus 1, nucleus 2]]))
   \<and> extract_tile_data flaky_store demo_db 0 0 0 256 [] =
        Some (Inl (DatabaseUnableToExtractData ''503 Service Unavailable''),
              [page_request demo_db (box_predicate 0 0 0 255 255) 0,
               page_request demo_db (box_predicate 0 0 0 255 255) 2])
   \<and> extract_region flaky_store demo_db 0 0 0 255 255 [] =
        Some (Inl (DatabaseUnableToExtractData ''503 Service Unavailable''),
              [page_request demo_db (box_predicate 0 0 0 255 255) 0,
               page_request demo_db (box_predicate 0 0 0 255 255) 2])"
  using paginated_extract_aborts [of flaky_store "[]" demo_db 0 "[[nucleus 1, nucleus 2]]"
          0 0 256 255 255]
    flaky_store_served [of "layer_predicate 0"] flaky_store_served [of "box_predicate 0 0 0 255 255"]
    flaky_store_fails [of "layer_predicate 0"] flaky_store_fails [of "box_predicate 0 0 0 255 255"]
  by (simp add: unavailable_error)

lemma replay_next: "replay rs (w @ [r]) = rs (length w)"
  by (simp add: replay_def)

lemma page_step_not_ok:
  "\<not> ok_status r \<Longrightarrow> page_step (classify r) offset items =
     Inl (DatabaseUnableToExtractData (error_text r))"
  by (simp add: page_step_def classify_def error_text_def)

lemma page_step_no_json:
  "ok_status r \<Longrightarrow> resp_text r = None \<Longrightarrow>
   page_step (classify r) offset items = Inl JSONDecodeError"
  by (simp add: page_step_def classify_def)

lemma page_step_no_dict:
  "ok_status r \<Longrightarrow> resp_text r = Some d \<Longrightarrow> \<forall>b. d \<noteq> JObj b \<Longrightarrow>
   page_step (classify r) offset items = Inl AttributeError"
  by (cases d) (simp_all add: page_step_def classify_def)

lemma page_step_dict:
  "ok_status r \<Longrightarrow> resp_text r = Some (JObj b) \<Longrightarrow>
   page_step (classify r) offset items =
     (case py_int (dict_get b ''count'') of
        Inl e \<Rightarrow> Inl e
      | Inr c \<Rightarrow>
          if c > 0 then
            (case py_iter (dict_get b ''items'') of
               Inl e \<Rightarrow> Inl e
             | Inr its \<Rightarrow>
                 (case py_get_each ''value'' its of
                    Inl e \<Rightarrow> Inl e
                  | Inr extracted \<Rightarrow>
                      Inr (dict_get b ''hasMore'', offset + c, items @ extracted)))
          else Inr (dict_get b ''hasMore'', offset + c, items))"
  by (simp add: page_step_def classify_def dict_get_def split: sum.splits)

lemma continues_step:
  assumes "continues r"
  shows "\<exists>hm offset' items'.
           page_step (classify r) offset items = Inr (hm, offset', items') \<and> py_truthy hm"
proof -
  from assms have ok: "ok_status r" by (simp add: continues_def)
  from assms obtain b where b: "resp_text r = Some (JObj b)"
    by (cases "resp_text r"; cases "the (resp_text r)") (simp_all add: continues_def)
  from assms ok b obtain c where c: "py_int (dict_get b ''count'') = Inr c"
    by (cases "py_int (dict_get b ''count'')") (simp_all add: continues_def)
  from assms ok b c have hm: "py_truthy (dict_get b ''hasMore'')"
    and it: "c > 0 \<Longrightarrow> readable_items (dict_get b ''items'')"
    by (simp_all add: continues_def)
  show ?thesis
  proof (cases "c > 0")
    case False
    with ok b c hm show ?thesis by (simp add: page_step_dict)
  next
    case True
    from it [OF True] obtain its vs where "py_iter (dict_get b ''items'') = Inr its"
      and "py_get_each ''value'' its = Inr vs"
      by (auto simp: readable_items_def split: sum.splits)
    with True ok b c hm show ?thesis by (simp add: page_step_dict)
  qed
qed

lemma stops_step:
  assumes "\<not> continues r"
  shows "(\<exists>e. page_step (classify r) offset items = Inl e)
         \<or> (\<exists>hm offset' items'.
               page_step (classify r) offset items = Inr (hm, offset', items')
               \<and> \<not> py_truthy hm)"
proof (cases "ok_status r")
  case False
  then show ?thesis by (simp add: page_step_not_ok)
next
  case ok: True
  show ?thesis
  proof (cases "resp_text r")
    case None
    with ok show ?thesis by (simp add: page_step_no_json)
  next
    case (Some d)
    show ?thesis
    proof (cases "\<exists>b. d = JObj b")
      case False
      with ok Some show ?thesis by (simp add: page_step_no_dict)
    next
      case True
      then obtain b where b: "resp_text r = Some (JObj b)" using Some by blast
      show ?thesis
      proof (cases "py_int (dict_get b ''count'')")
        case (Inl e)
        with ok b show ?thesis by (simp add: page_step_dict)
      next
        case (Inr c)
        show ?thesis
        proof (cases "c > 0")
          case False
          with assms ok b Inr have "\<not> py_truthy (dict_get b ''hasMore'')"
            by (simp add: continues_def)
          with False ok b Inr show ?thesis by (simp add: page_step_dict)
        next
          case True
          show ?thesis
          proof (cases "py_iter (dict_get b ''items'')")
            case (Inl e)
            with True ok b Inr show ?thesis by (simp add: page_step_dict)
          next
            case its: (Inr its)
            show ?thesis
            proof (cases "py_get_each ''value'' its")
              case (Inl e)
              with its True ok b Inr show ?thesis by (simp add: page_step_dict)
            next
              case vs: (Inr vs)
              with its have "readable_items (dict_get b ''items'')"
                by (simp add: readable_items_def)
              with assms ok b Inr True have "\<not> py_truthy (dict_get b ''hasMore'')"
                by (simp add: continues_def)
              with vs its True ok b Inr show ?thesis by (simp add: page_step_dict)
            qed
          qed
        qed
      qed
    qed
  qed
qed

lemma query_loop_goes_on:
  assumes "page_step (classify (srv (w @ [page_request self q offset]))) offset items =
             Inr (hm, offset', items')" and "py_truthy hm"
  shows "query_loop srv self q w offset items =
           query_loop srv self q (w @ [page_request self q offset]) offset' items'"
  using assms by (subst query_loop.simps) simp

lemma query_loop_stops:
  assumes "\<not> continues (srv (w @ [page_request self q offset]))"
  shows "query_loop srv self q w offset items \<noteq> None"
  using stops_step [OF assms, of offset items]
  by (subst query_loop.simps) auto

lemma query_loop_ends:
  assumes "\<not> continues (rs n)"
  shows "length w \<le> n \<Longrightarrow> query_loop (replay rs) self q w offset items \<noteq> None"
proof (induction "n - length w" arbitrary: w offset items)
  case 0
  then have "length w = n" by simp
  with assms have "\<not> continues (replay rs (w @ [page_request self q offset]))"
    by (simp add: replay_next)
  then show ?case by (rule query_loop_stops)
next
  case (Suc m)
  show ?case
  proof (cases "continues (replay rs (w @ [page_request self q offset]))")
    case False
    then show ?thesis by (rule query_loop_stops)
  next
    case True
    from continues_step [OF True, of offset items] obtain hm offset' items'
      where st: "page_step (classify (replay rs (w @ [page_request self q offset])))
                   offset items = Inr (hm, offset', items')" and hm: "py_truthy hm"
      by blast
    from Suc.hyps(2) Suc.prems
    have "m = n - length (w @ [page_request self q offset])"
      and "length (w @ [page_request self q offset]) \<le> n"
      by simp_all
    from Suc.hyps(1) [OF this]
    have "query_loop (replay rs) self q (w @ [page_request self q offset]) offset' items'
            \<noteq> None" .
    moreover from st hm
    have "query_loop (replay rs) self q w offset items =
            query_loop (replay rs) self q (w @ [page_request self q offset]) offset' items'"
      by (rule query_loop_goes_on)
    ultimately show ?thesis by (simp only: not_False_eq_True)
  qed
qed

lemma query_loop_ended:
  "query_loop srv self q w offset items = Some y \<Longrightarrow>
   srv = replay rs \<longrightarrow> (\<exists>n\<ge>length w. \<not> continues (rs n))"
proof (induction rule: query_loop.raw_induct [rotated 1, consumes 1, case_names step])
  case (step f srv self q w offset items y)
  show ?case
  proof
    assume srv: "srv = replay rs"
    show "\<exists>n\<ge>length w. \<not> continues (rs n)"
    proof (cases "continues (rs (length w))")
      case False
      then show ?thesis by blast
    next
      case True
      with srv have "continues (srv (w @ [page_request self q offset]))"
        by (simp add: replay_next)
      from continues_step [OF this, of offset items] obtain hm offset' items'
        where "page_step (classify (srv (w @ [page_request self q offset])))
                 offset items = Inr (hm, offset', items')" and "py_truthy hm"
        by blast
      with step.hyps
      have "f srv self q (w @ [page_request self q offset]) offset' items' = Some y"
        by simp
      from step.IH [OF this] srv
      obtain n where "length (w @ [page_request self q offset]) \<le> n"
        and n: "\<not> continues (rs n)"
        by blast
      then have "length w \<le> n" by simp
      with n show ?thesis by blast
    qed
  qed
qed

lemma query_loop_ends_iff:
  "query_loop (replay rs) self q w offset items \<noteq> None \<longleftrightarrow>
     (\<exists>n\<ge>length w. \<not> continues (rs n))"
proof
  assume "query_loop (replay rs) self q w offset items \<noteq> None"
  then obtain y where "query_loop (replay rs) self q w offset items = Some y" by blast
  from query_loop_ended [OF this]
  show "\<exists>n\<ge>length w. \<not> continues (rs n)" by blast
next
  assume "\<exists>n\<ge>length w. \<not> continues (rs n)"
  then obtain n where "\<not> continues (rs n)" "length w \<le> n" by blast
  then show "query_loop (replay rs) self q w offset items \<noteq> None"
    by (rule query_loop_ends)
qed

lemma query_loop_raises:
  assumes "\<not> ok_status (rs n)"
  shows "length w \<le> n \<Longrightarrow> \<forall>k. length w \<le> k \<and> k < n \<longrightarrow> continues (rs k) \<Longrightarrow>
         \<exists>tr. query_loop (replay rs) self q w offset items =
                Some (Inl (DatabaseUnableToExtractData (error_text (rs n))), tr)"
proof (induction "n - length w" arbitrary: w offset items)
  case 0
  then have n: "length w = n" by simp
  with assms have "page_step (classify (replay rs (w @ [page_request self q offset])))
      offset items = Inl (DatabaseUnableToExtractData (error_text (rs n)))"
    by (simp add: replay_next page_step_not_ok)
  then show ?case by (subst query_loop.simps) simp
next
  case (Suc m)
  from Suc.hyps(2) have "length w < n" by simp
  with Suc.prems have "continues (rs (length w))" by simp
  then have "continues (replay rs (w @ [page_request self q offset]))"
    by (simp add: replay_next)
  from continues_step [OF this, of offset items] obtain hm offset' items'
    where st: "page_step (classify (replay rs (w @ [page_request self q offset])))
                 offset items = Inr (hm, offset', items')" and hm: "py_truthy hm"
    by blast
  from Suc.hyps(2) Suc.prems
  have a: "m = n - length (w @ [page_request self q offset])"
    and b: "length (w @ [page_request self q offset]) \<le> n"
    and c: "\<forall>k. length (w @ [page_request self q offset]) \<le> k \<and> k < n \<longrightarrow> continues (rs k)"
    by simp_all
  from Suc.hyps(1) [OF a b c]
  obtain tr where "query_loop (replay rs) self q (w @ [page_request self q offset])
      offset' items' = Some (Inl (DatabaseUnableToExtractData (error_text (rs n))), tr)"
    by blast
  moreover from st hm
  have "query_loop (replay rs) self q w offset items =
          query_loop (replay rs) self q (w @ [page_request self q offset]) offset' items'"
    by (rule query_loop_goes_on)
  ultimately show ?case by (intro exI [of _ tr]) (simp only:)
qed

lemma page_step_stall:
  assumes "zero_count_more r"
  shows "page_step (classify r) offset items = Inr (JBool True, offset, items)"
proof -
  from assms have ok: "ok_status r" by (simp add: zero_count_more_def)
  from assms obtain b where b: "resp_text r = Some (JObj b)"
    by (cases "resp_text r"; cases "the (resp_text r)") (simp_all add: zero_count_more_def)
  from assms b have "map_of b ''count'' = Some (JInt 0)"
    and "map_of b ''hasMore'' = Some (JBool True)"
    by (simp_all add: zero_count_more_def)
  with ok b show ?thesis by (simp add: page_step_dict dict_get_def)
qed

lemma zero_count_continues:
  assumes "zero_count_more r"
  shows "continues r"
proof -
  from assms have ok: "ok_status r" by (simp add: zero_count_more_def)
  from assms obtain b where b: "resp_text r = Some (JObj b)"
    by (cases "resp_text r"; cases "the (resp_text r)") (simp_all add: zero_count_more_def)
  from assms b have "map_of b ''count'' = Some (JInt 0)"
    and "map_of b ''hasMore'' = Some (JBool True)"
    by (simp_all add: zero_count_more_def)
  with ok b show ?thesis by (simp add: continues_def dict_get_def)
qed

lemma continues_ok: "continues r \<Longrightarrow> ok_status r"
  by (simp add: continues_def)

lemma continues_flag:
  assumes "continues r"
  shows "\<not> has_more_false r"
proof -
  from assms obtain b where b: "resp_text r = Some (JObj b)"
    by (cases "resp_text r"; cases "the (resp_text r)") (simp_all add: continues_def)
  from assms b have "py_truthy (dict_get b ''hasMore'')"
    by (cases "py_int (dict_get b ''count'')") (simp_all add: continues_def)
  with b show ?thesis by (auto simp: has_more_false_def dict_get_def)
qed

lemma query_loop_stall:
  assumes "zero_count_more (srv (w @ [page_request self q offset]))"
  shows "query_loop srv self q w offset items =
           query_loop srv self q (w @ [page_request self q offset]) offset items"
  using page_step_stall [OF assms, of offset items]
  by (subst query_loop.simps) simp

lemma query_loop_stalls:
  "\<forall>k<n. zero_count_more (srv (w @ replicate (Suc k) (page_request self q offset))) \<Longrightarrow>
   query_loop srv self q w offset items =
     query_loop srv self q (w @ replicate n (page_request self q offset)) offset items"
proof (induction n arbitrary: w)
  case 0
  show ?case by simp
next
  case (Suc n)
  let ?r = "page_request self q offset"
  from Suc.prems have "zero_count_more (srv (w @ replicate (Suc 0) ?r))" by blast
  then have first: "zero_count_more (srv (w @ [?r]))" by simp
  have rest: "\<forall>k<n. zero_count_more (srv ((w @ [?r]) @ replicate (Suc k) ?r))"
  proof (intro allI impI)
    fix k assume "k < n"
    then have "Suc k < Suc n" by simp
    with Suc.prems have "zero_count_more (srv (w @ replicate (Suc (Suc k)) ?r))" by blast
    then show "zero_count_more (srv ((w @ [?r]) @ replicate (Suc k) ?r))" by simp
  qed
  from first have "query_loop srv self q w offset items =
      query_loop srv self q (w @ [?r]) offset items"
    by (rule query_loop_stall)
  also from Suc.IH [OF rest]
  have "\<dots> = query_loop srv self q ((w @ [?r]) @ replicate n ?r) offset items" .
  finally show ?case by (simp add: replicate_append_same)
qed

lemma query_loop_stalls_then_returns:
  assumes "\<forall>k<n. zero_count_more (srv (w @ replicate (Suc k) (page_request self q 0)))"
    and "is_page (srv (w @ replicate (Suc n) (page_request self q 0))) lastp False"
  shows "query_loop srv self q w 0 [] =
           Some (Inr lastp, w @ replicate (Suc n) (page_request self q 0))"
proof -
  let ?r = "page_request self q 0"
  from assms(2) have "is_page (srv ((w @ replicate n ?r) @ [?r])) lastp False"
    by (simp add: replicate_append_same)
  then have "query_loop srv self q (w @ replicate n ?r) 0 [] =
      Some (Inr ([] @ lastp), (w @ replicate n ?r) @ [?r])"
    by (rule query_loop_last)
  with query_loop_stalls [OF assms(1), of "[]"] show ?thesis
    by (simp add: replicate_append_same)
qed

lemma query_loop_never:
  "query_loop srv self q w offset items = Some y \<Longrightarrow>
   (\<forall>h. zero_count_more (srv h)) \<longrightarrow> False"
proof (induction rule: query_loop.raw_induct [rotated 1, consumes 1, case_names step])
  case (step f srv self q w offset items y)
  show ?case
  proof
    assume all: "\<forall>h. zero_count_more (srv h)"
    then have "zero_count_more (srv (w @ [page_request self q offset]))" by blast
    then have "page_step (classify (srv (w @ [page_request self q offset]))) offset items =
        Inr (JBool True, offset, items)"
      by (rule page_step_stall)
    with step.hyps have "f srv self q (w @ [page_request self q offset]) offset items = Some y"
      by simp
    from step.IH [OF this] all show False by blast
  qed
qed

lemma query_loop_stalled:
  assumes "\<forall>h. zero_count_more (srv h)"
  shows "query_loop srv self q w offset items = None"
proof (cases "query_loop srv self q w offset items")
  case None
  then show ?thesis .
next
  case (Some y)
  from query_loop_never [OF this] assms show ?thesis by blast
qed


text \<open>
  Claim C3, as amended. The pagination loop of \<^verbatim>\<open>extract_items\<close>, of
  \<^verbatim>\<open>extract_tile_data\<close> and of \<^verbatim>\<open>extract_region\<close> ends if and only if some response
  it is given is not one it continues after: a response with a status that is not ok (the
  loop then ends by raising the extract-data error), with a body it cannot read, or with a
  \<^verbatim>\<open>hasMore\<close> that is false, absent or otherwise false for Python. A response with
  \<^verbatim>\<open>hasMore\<close> true and count 0 is one it continues after, with the same request at the
  same offset: after any number of such responses and a last page, the requests sent are
  all at offset 0, and while the store gives only such responses the loop does not end.
  An empty page is not taken for the end of the results.
\<close>

theorem pagination_ends_iff:
  "((extract_items (replay rs) self z w \<noteq> None \<longleftrightarrow>
        (\<exists>n\<ge>length w. \<not> continues (rs n)))
    \<and> (extract_tile_data (replay rs) self z x0 y0 tile_size w \<noteq> None \<longleftrightarrow>
        (\<exists>n\<ge>length w. \<not> continues (rs n)))
    \<and> (extract_region (replay rs) self z x0 y0 xf yf w \<noteq> None \<longleftrightarrow>
        (\<exists>n\<ge>length w. \<not> continues (rs n))))
   \<and> ((continues r \<longrightarrow> ok_status r \<and> \<not> has_more_false r)
      \<and> (zero_count_more r \<longrightarrow> continues r))
   \<and> (length w \<le> n \<and> (\<forall>k. length w \<le> k \<and> k < n \<longrightarrow> continues (rs k))
        \<and> \<not> ok_status (rs n) \<longrightarrow>
      (\<exists>tr. extract_items (replay rs) self z w =
         Some (Inl (DatabaseUnableToExtractData (error_text (rs n))), tr))
      \<and> (\<exists>tr. extract_tile_data (replay rs) self z x0 y0 tile_size w =
         Some (Inl (DatabaseUnableToExtractData (error_text (rs n))), tr))
      \<and> (\<exists>tr. extract_region (replay rs) self z x0 y0 xf yf w =
         Some (Inl (DatabaseUnableToExtractData (error_text (rs n))), tr)))
   \<and> ((\<forall>h. zero_count_more (srv h)) \<longrightarrow>
      extract_items srv self z w = None
      \<and> extract_tile_data srv self z x0 y0 tile_size w = None
      \<and> extract_region srv self z x0 y0 xf yf w = None)
   \<and> ((\<forall>k<m. zero_count_more
                 (srv (w @ replicate (Suc k) (page_request self (layer_predicate z) 0))))
        \<and> is_page (srv (w @ replicate (Suc m) (page_request self (layer_predicate z) 0)))
             lastp False \<longrightarrow>
      extract_items srv self z w =
        Some (Inr lastp, w @ replicate (Suc m) (page_request self (layer_predicate z) 0)))
   \<and> ((\<forall>k<m. zero_count_more
                 (srv (w @ replicate (Suc k) (page_request self
                    (box_predicate z x0 y0 (x0 + tile_size - 1) (y0 + tile_size - 1)) 0))))
        \<and> is_page (srv (w @ replicate (Suc m) (page_request self
                    (box_predicate z x0 y0 (x0 + tile_size - 1) (y0 + tile_size - 1)) 0)))
             lastp False \<longrightarrow>
      extract_tile_data srv self z x0 y0 tile_size w =
        Some (Inr lastp, w @ replicate (Suc m) (page_request self
                (box_predicate z x0 y0 (x0 + tile_size - 1) (y0 + tile_size - 1)) 0)))
   \<and> ((\<forall>k<m. zero_count_more
                 (srv (w @ replicate (Suc k) (page_request self
                    (box_predicate z x0 y0 xf yf) 0))))
        \<and> is_page (srv (w @ replicate (Suc m) (page_request self
                    (box_predicate z x0 y0 xf yf) 0))) lastp False \<longrightarrow>
      extract_region srv self z x0 y0 xf yf w =
        Some (Inr lastp, w @ replicate (Suc m) (page_request self
                (box_predicate z x0 y0 xf yf) 0)))"
proof (intro conjI impI)
  show "extract_items (replay rs) self z w \<noteq> None \<longleftrightarrow>
          (\<exists>n\<ge>length w. \<not> continues (rs n))"
    unfolding extract_items_query by (rule query_loop_ends_iff)
  show "extract_tile_data (replay rs) self z x0 y0 tile_size w \<noteq> None \<longleftrightarrow>
          (\<exists>n\<ge>length w. \<not> continues (rs n))"
    unfolding extract_tile_data_query by (rule query_loop_ends_iff)
  show "extract_region (replay rs) self z x0 y0 xf yf w \<noteq> None \<longleftrightarrow>
          (\<exists>n\<ge>length w. \<not> continues (rs n))"
    unfolding extract_region_query by (rule query_loop_ends_iff)
next
  assume "continues r"
  then show "ok_status r" by (rule continues_ok)
next
  assume "continues r"
  then show "\<not> has_more_false r" by (rule continues_flag)
next
  assume "zero_count_more r"
  then show "continues r" by (rule zero_count_continues)
next
  assume h: "length w \<le> n \<and> (\<forall>k. length w \<le> k \<and> k < n \<longrightarrow> continues (rs k))
        \<and> \<not> ok_status (rs n)"
  then have 1: "\<not> ok_status (rs n)" and 2: "length w \<le> n"
    and 3: "\<forall>k. length w \<le> k \<and> k < n \<longrightarrow> continues (rs k)"
    by simp_all
  show "\<exists>tr. extract_items (replay rs) self z w =
         Some (Inl (DatabaseUnableToExtractData (error_text (rs n))), tr)"
    unfolding extract_items_query by (rule query_loop_raises [OF 1 2 3])
  show "\<exists>tr. extract_tile_data (replay rs) self z x0 y0 tile_size w =
         Some (Inl (DatabaseUnableToExtractData (error_text (rs n))), tr)"
    unfolding extract_tile_data_query by (rule query_loop_raises [OF 1 2 3])
  show "\<exists>tr. extract_region (replay rs) self z x0 y0 xf yf w =
         Some (Inl (DatabaseUnableToExtractData (error_text (rs n))), tr)"
    unfolding extract_region_query by (rule query_loop_raises [OF 1 2 3])
next
  assume h: "\<forall>h. zero_count_more (srv h)"
  show "extract_items srv self z w = None"
    unfolding extract_items_query by (rule query_loop_stalled [OF h])
  show "extract_tile_data srv self z x0 y0 tile_size w = None"
    unfolding extract_tile_data_query by (rule query_loop_stalled [OF h])
  show "extract_region srv self z x0 y0 xf yf w = None"
    unfolding extract_region_query by (rule query_loop_stalled [OF h])
next
  assume "(\<forall>k<m. zero_count_more
                 (srv (w @ replicate (Suc k) (page_request self (layer_predicate z) 0))))
        \<and> is_page (srv (w @ replicate (Suc m) (page_request self (layer_predicate z) 0)))
             lastp False"
  then show "extract_items srv self z w =
        Some (Inr lastp, w @ replicate (Suc m) (page_request self (layer_predicate z) 0))"
    unfolding extract_items_query
    by (intro query_loop_stalls_then_returns) (erule conjunct1, erule conjunct2)
next
  assume "(\<forall>k<m. zero_count_more
                 (srv (w @ replicate (Suc k) (page_request self
                    (box_predicate z x0 y0 (x0 + tile_size - 1) (y0 + tile_size - 1)) 0))))
        \<and> is_page (srv (w @ replicate (Suc m) (page_request self
                    (box_predicate z x0 y0 (x0 + tile_size - 1) (y0 + tile_size - 1)) 0)))
             lastp False"
  then show "extract_tile_data srv self z x0 y0 tile_size w =
        Some (Inr lastp, w @ replicate (Suc m) (page_request self
                (box_predicate z x0 y0 (x0 + tile_size - 1) (y0 + tile_size - 1)) 0))"
    unfolding extract_tile_data_query
    by (intro query_loop_stalls_then_returns) (erule conjunct1, erule conjunct2)
next
  assume "(\<forall>k<m. zero_count_more
                 (srv (w @ replicate (Suc k) (page_request self
                    (box_predicate z x0 y0 xf yf) 0))))
        \<and> is_page (srv (w @ replicate (Suc m) (page_request self
                    (box_predicate z x0 y0 xf yf) 0))) lastp False"
  then show "extract_region srv self z x0 y0 xf yf w =
        Some (Inr lastp, w @ replicate (Suc m) (page_request self
                (box_predicate z x0 y0 xf yf) 0))"
    unfolding extract_region_query
    by (intro query_loop_stalls_then_returns) (erule conjunct1, erule conjunct2)
qed


lemma is_page_continues:
  assumes "is_page r docs True"
  shows "continues r"
proof -
  from assms have ok: "ok_status r" by (simp add: is_page_def)
  from assms obtain b where b: "resp_text r = Some (JObj b)"
    by (auto simp: is_page_def split: option.splits json.splits)
  from assms b obtain its where its: "map_of b ''items'' = Some (JList its)"
    and vs: "those (map item_value its) = Some docs"
    by (auto simp: is_page_def split: option.splits json.splits)
  from assms b have c: "map_of b ''count'' = Some (JInt (int (length docs)))"
    and h: "map_of b ''hasMore'' = Some (JBool True)"
    by (auto simp: is_page_def)
  from py_get_each_values [OF vs] ok b its c h show ?thesis
    by (simp add: continues_def dict_get_def readable_items_def)
qed

lemma empty_page_stalls: "zero_count_more (page_response [] True)"
  by (simp add: zero_count_more_def page_response_def ok_status_def)

lemma last_page_stops: "\<not> continues (page_response docs False)"
  by (simp add: continues_def page_response_def dict_get_def split: sum.splits)

lemma demo_pages_stop: "\<not> continues (demo_pages 2)"
  by (simp add: demo_pages_def script_def last_page_stops)

lemma failing_pages_facts:
  "continues (failing_pages 0)" "\<not> ok_status (failing_pages 1)"
  "error_text (failing_pages 1) = ''503 Service Unavailable''"
  by (simp_all add: failing_pages_def script_def is_page_continues [OF is_page_page_response]
        unavailable_def ok_status_def error_text_def str_int_def str_nat.simps)

lemma stalled_store_stalls: "\<forall>h. zero_count_more (stalled_store h)"
  by (simp add: stalled_store_def every_time_def empty_page_stalls)

lemma stalling_pages_facts:
  "zero_count_more (replay stalling_pages [a])"
  "zero_count_more (replay stalling_pages [a, b])"
  "is_page (replay stalling_pages [a, b, c]) [nucleus 1] False"
  by (simp_all add: replay_def stalling_pages_def script_def empty_page_stalls
        is_page_page_response)

text \<open>
  The store of five documents ends the three loops with its third page; the store that
  fails at its second request makes them raise; the store of empty pages flagged
  \<^verbatim>\<open>hasMore\<close> never lets them end; after two such pages and a last page of one
  document, three requests have been sent, all at offset 0.
\<close>

theorem pagination_ends_iff_witness:
  "\<not> continues (demo_pages 2)
   \<and> extract_items (replay demo_pages) demo_db 0 [] \<noteq> None
   \<and> extract_tile_data (replay demo_pages) demo_db 0 0 0 256 [] \<noteq> None
   \<and> extract_region (replay demo_pages) demo_db 0 0 0 255 255 [] \<noteq> None
   \<and> zero_count_more (page_response [] True)
   \<and> continues (page_response [] True)
   \<and> ok_status (page_response [] True)
   \<and> \<not> has_more_false (page_response [] True)
   \<and> continues (failing_pages 0)
   \<and> \<not> ok_status (failing_pages 1)
   \<and> (\<exists>tr. extract_items (replay failing_pages) demo_db 0 [] =
         Some (Inl (DatabaseUnableToExtractData ''503 Service Unavailable''), tr))
   \<and> (\<exists>tr. extract_tile_data (replay failing_pages) demo_db 0 0 0 256 [] =
         Some (Inl (DatabaseUnableToExtractData ''503 Service Unavailable''), tr))
   \<and> (\<exists>tr. extract_region (replay failing_pages) demo_db 0 0 0 255 255 [] =
         Some (Inl (DatabaseUnableToExtractData ''503 Service Unavailable''), tr))
   \<and> (\<forall>h. zero_count_more (stalled_store h))
   \<and> extract_items stalled_store demo_db 0 [] = None
   \<and> extract_tile_data stalled_store demo_db 0 0 0 256 [] = None
   \<and> extract_region stalled_store demo_db 0 0 0 255 255 [] = None
   \<and> zero_count_more (replay stalling_pages [page_request demo_db (layer_predicate 0) 0])
   \<and> zero_count_more (replay stalling_pages [page_request demo_db (layer_predicate 0) 0,
                                                 page_request demo_db (layer_predicate 0) 0])
   \<and> extract_items (replay stalling_pages) demo_db 0 [] =
        Some (Inr [nucleus 1],
              [page_request demo_db (layer_predicate 0) 0,
               page_request demo_db (layer_predicate 0) 0,
               page_request demo_db (layer_predicate 0) 0])
   \<and> extract_tile_data (replay stalling_pages) demo_db 0 0 0 256 [] =
        Some (Inr [nucleus 1],
              [page_request demo_db (box_predicate 0 0 0 255 255) 0,
               page_request demo_db (box_predicate 0 0 0 255 255) 0,
               page_request demo_db (box_predicate 0 0 0 255 255) 0])
   \<and> extract_region (replay stalling_pages) demo_db 0 0 0 255 255 [] =
        Some (Inr [nucleus 1],
              [page_request demo_db (box_predicate 0 0 0 255 255) 0,
               page_request demo_db (box_predicate 0 0 0 255 255) 0,
               page_request demo_db (box_predicate 0 0 0 255 255) 0])"
proof -
  note A = pagination_ends_iff [where rs = demo_pages and self = demo_db and z = 0
      and w = "[]" and ?x0.0 = 0 and ?y0.0 = 0 and tile_size = 256 and xf = 255 and yf = 255,
      THEN conjunct1]
  have ex: "\<exists>n\<ge>length ([]::request list). \<not> continues (demo_pages n)"
    by (intro exI [of _ 2]) (simp add: demo_pages_stop)
  have a1: "extract_items (replay demo_pages) demo_db 0 [] \<noteq> None"
    using A [THEN conjunct1] ex by (rule iffD2)
  have a2: "extract_tile_data (replay demo_pages) demo_db 0 0 0 256 [] \<noteq> None"
    using A [THEN conjunct2, THEN conjunct1] ex by (rule iffD2)
  have a3: "extract_region (replay demo_pages) demo_db 0 0 0 255 255 [] \<noteq> None"
    using A [THEN conjunct2, THEN conjunct2] ex by (rule iffD2)
  note B = pagination_ends_iff [where r = "page_response [] True",
      THEN conjunct2, THEN conjunct1]
  have b1: "continues (page_response [] True)"
    using B [THEN conjunct2] empty_page_stalls by (rule mp)
  have b2: "ok_status (page_response [] True) \<and> \<not> has_more_false (page_response [] True)"
    using B [THEN conjunct1] b1 by (rule mp)
  note C = pagination_ends_iff [where rs = failing_pages and n = 1 and self = demo_db
      and z = 0 and w = "[]" and ?x0.0 = 0 and ?y0.0 = 0 and tile_size = 256 and xf = 255
      and yf = 255, THEN conjunct2, THEN conjunct2, THEN conjunct1]
  have hc: "length ([]::request list) \<le> 1
      \<and> (\<forall>k. length ([]::request list) \<le> k \<and> k < 1 \<longrightarrow> continues (failing_pages k))
      \<and> \<not> ok_status (failing_pages 1)"
    using failing_pages_facts(1,2) by simp
  note c = mp [OF C hc, unfolded failing_pages_facts(3)]
  note D = pagination_ends_iff [where srv = stalled_store and self = demo_db and z = 0
      and w = "[]" and ?x0.0 = 0 and ?y0.0 = 0 and tile_size = 256 and xf = 255 and yf = 255,
      THEN conjunct2, THEN conjunct2, THEN conjunct2, THEN conjunct1]
  note d = mp [OF D stalled_store_stalls]
  note E = pagination_ends_iff [where srv = "replay stalling_pages" and m = 2
      and lastp = "[nucleus 1]" and self = demo_db and z = 0 and w = "[]" and ?x0.0 = 0
      and ?y0.0 = 0 and tile_size = 256 and xf = 255 and yf = 255,
      THEN conjunct2, THEN conjunct2, THEN conjunct2, THEN conjunct2]
  have e1: "extract_items (replay stalling_pages) demo_db 0 [] =
        Some (Inr [nucleus 1],
              [page_request demo_db (layer_predicate 0) 0,
               page_request demo_db (layer_predicate 0) 0,
               page_request demo_db (layer_predicate 0) 0])"
    using E [THEN conjunct1]
    by (simp add: stalling_pages_facts less_Suc_eq numeral_2_eq_2 numeral_3_eq_3)
  have e2: "extract_tile_data (replay stalling_pages) demo_db 0 0 0 256 [] =
        Some (Inr [nucleus 1],
              [page_request demo_db (box_predicate 0 0 0 255 255) 0,
               page_request demo_db (box_predicate 0 0 0 255 255) 0,
               page_request demo_db (box_predicate 0 0 0 255 255) 0])"
    using E [THEN conjunct2, THEN conjunct1]
    by (simp add: stalling_pages_facts less_Suc_eq numeral_2_eq_2 numeral_3_eq_3)
  have e3: "extract_region (replay stalling_pages) demo_db 0 0 0 255 255 [] =
        Some (Inr [nucleus 1],
              [page_request demo_db (box_predicate 0 0 0 255 255) 0,
               page_request demo_db (box_predicate 0 0 0 255 255) 0,
               page_request demo_db (box_predicate 0 0 0 255 255) 0])"
    using E [THEN conjunct2, THEN conjunct2]
    by (simp add: stalling_pages_facts less_Suc_eq numeral_2_eq_2 numeral_3_eq_3)
  show ?thesis
    by (intro conjI demo_pages_stop a1 a2 a3 empty_page_stalls b1 b2 [THEN conjunct1]
          b2 [THEN conjunct2] failing_pages_facts(1) failing_pages_facts(2)
          c [THEN conjunct1] c [THEN conjunct2, THEN conjunct1]
          c [THEN conjunct2, THEN conjunct2] stalled_store_stalls
          d [THEN conjunct1] d [THEN conjunct2, THEN conjunct1] d [THEN conjunct2, THEN conjunct2]
          stalling_pages_facts(1) stalling_pages_facts(2) e1 e2 e3)
qed

text \<open>
  The claim as it is written fails in its "only if": the loop also ends, with no response
  carrying \<^verbatim>\<open>hasMore\<close> equal to false, at a status that is not ok, at a body without the
  \<^verbatim>\<open>hasMore\<close> key and at a body that is not JSON.
\<close>

theorem pagination_ends_on_error:
  "extract_items (every_time server_error) demo_db 0 [] =
     Some (Inl (DatabaseUnableToExtractData ''500 Internal Server Error''),
           [page_request demo_db (layer_predicate 0) 0])
   \<and> \<not> has_more_false server_error
   \<and> extract_items (every_time unflagged) demo_db 0 [] =
       Some (Inr [], [page_request demo_db (layer_predicate 0) 0])
   \<and> \<not> has_more_false unflagged
   \<and> extract_items (every_time garbled) demo_db 0 [] =
       Some (Inl JSONDecodeError, [page_request demo_db (layer_predicate 0) 0])
   \<and> \<not> has_more_false garbled"
proof (intro conjI)
  show "extract_items (every_time server_error) demo_db 0 [] =
     Some (Inl (DatabaseUnableToExtractData ''500 Internal Server Error''),
           [page_request demo_db (layer_predicate 0) 0])"
    unfolding extract_items_query
    by (subst query_loop.simps)
       (simp add: every_time_def server_error_def page_step_def classify_def ok_status_def
          str_int_def str_nat.simps)
  show "extract_items (every_time unflagged) demo_db 0 [] =
       Some (Inr [], [page_request demo_db (layer_predicate 0) 0])"
    unfolding extract_items_query
    by (subst query_loop.simps)
       (simp add: every_time_def unflagged_def page_step_def classify_def ok_status_def)
  show "extract_items (every_time garbled) demo_db 0 [] =
       Some (Inl JSONDecodeError, [page_request demo_db (layer_predicate 0) 0])"
    unfolding extract_items_query
    by (subst query_loop.simps)
       (simp add: every_time_def garbled_def page_step_def classify_def ok_status_def)
  show "\<not> has_more_false server_error"
    by (simp add: has_more_false_def server_error_def)
  show "\<not> has_more_false unflagged"
    by (simp add: has_more_false_def unflagged_def)
  show "\<not> has_more_false garbled"
    by (simp add: has_more_false_def garbled_def)
qed

lemma extract_metadata_trace:
  "snd (extract_metadata srv self w) = w @ [metadata_query self]"
  by (simp add: extract_metadata_def make_post_request_eq metadata_query_def Let_def
        split: reply.splits option.splits sum.splits)

lemma extract_metadata_error:
  assumes "\<not> ok_status (srv (w @ [metadata_query self]))"
  shows "extract_metadata srv self w =
           (Inl (DatabaseUnableToExtractData (error_text (srv (w @ [metadata_query self])))),
            w @ [metadata_query self])"
  using assms
  by (simp add: extract_metadata_def make_post_request_eq metadata_query_def Let_def
        classify_def error_text_def)

lemma counts_body:
  assumes "counts r c"
  obtains b where "ok_status r" "resp_text r = Some (JObj b)"
    "map_of b ''count'' = Some (JInt c)"
proof -
  from assms have ok: "ok_status r" by (simp add: counts_def)
  from assms obtain b where b: "resp_text r = Some (JObj b)"
    by (cases "resp_text r"; cases "the (resp_text r)") (simp_all add: counts_def)
  from assms b have "map_of b ''count'' = Some (JInt c)" by (simp add: counts_def)
  with ok b show ?thesis by (rule that)
qed

lemma extract_metadata_none:
  assumes "counts (srv (w @ [metadata_query self])) 0"
  shows "extract_metadata srv self w = (Inr (JObj []), w @ [metadata_query self])"
  using assms
  by (elim counts_body)
     (simp add: extract_metadata_def make_post_request_eq metadata_query_def Let_def
        classify_def)

lemma extract_metadata_many:
  assumes "counts (srv (w @ [metadata_query self])) c" and "1 < c"
  shows "extract_metadata srv self w =
           (Inl (DatabaseTooManyMetadataDocs
                   (''Found '' @ str_int c @ '' metadata documents. Only one is allowed.'')),
            w @ [metadata_query self])"
  using assms
  by (elim counts_body)
     (simp add: extract_metadata_def make_post_request_eq metadata_query_def Let_def
        classify_def)

lemma first_document_items:
  assumes "first_document r d" and "resp_text r = Some (JObj b)"
  obtains it rest where "map_of b ''items'' = Some (JList (JObj it # rest))"
    "map_of it ''value'' = Some (JObj d)"
proof -
  from assms obtain v where v: "map_of b ''items'' = Some v"
    by (cases "map_of b ''items''") (simp_all add: first_document_def)
  from assms v obtain xs where xs: "v = JList xs"
    by (cases v) (simp_all add: first_document_def)
  from assms v xs obtain x rest where x: "xs = x # rest"
    by (cases xs) (simp_all add: first_document_def)
  from assms v xs x obtain it where it: "x = JObj it"
    by (cases x) (simp_all add: first_document_def)
  from assms v xs x it have "map_of it ''value'' = Some (JObj d)"
    by (simp add: first_document_def)
  with v xs x it show ?thesis by (intro that [of it rest]) simp_all
qed

lemma extract_metadata_one:
  assumes "counts (srv (w @ [metadata_query self])) 1"
    and "first_document (srv (w @ [metadata_query self])) d"
  shows "extract_metadata srv self w =
           (Inr (dict_get d ''content''), w @ [metadata_query self])"
proof -
  from assms(1) obtain b where ok: "ok_status (srv (w @ [metadata_query self]))"
    and b: "resp_text (srv (w @ [metadata_query self])) = Some (JObj b)"
    and c: "map_of b ''count'' = Some (JInt 1)"
    by (rule counts_body)
  from assms(2) b obtain it rest where "map_of b ''items'' = Some (JList (JObj it # rest))"
    and "map_of it ''value'' = Some (JObj d)"
    by (rule first_document_items)
  with ok b c show ?thesis
    by (simp add: extract_metadata_def make_post_request_eq metadata_query_def Let_def
          classify_def dict_get_def)
qed

text \<open>
  Claim C5. \<^verbatim>\<open>extract_metadata\<close> sends one request, the query for the documents whose
  type equals \<^verbatim>\<open>Metadata\<close>. When the store answers it with a status that is not ok, the
  method raises the extract-data error with the code and the reason; when the response
  counts no result, it returns the empty mapping; when it counts one, it returns the
  \<^verbatim>\<open>content\<close> field of that document; when it counts more than one, it raises the
  too-many-metadata-documents error, whose message carries the count.
\<close>

theorem extract_metadata_cases:
  "snd (extract_metadata srv self w) = w @ [metadata_query self]
   \<and> (\<not> ok_status (srv (w @ [metadata_query self])) \<longrightarrow>
        fst (extract_metadata srv self w) =
          Inl (DatabaseUnableToExtractData (error_text (srv (w @ [metadata_query self])))))
   \<and> (counts (srv (w @ [metadata_query self])) 0 \<longrightarrow>
        fst (extract_metadata srv self w) = Inr (JObj []))
   \<and> (counts (srv (w @ [metadata_query self])) 1
        \<and> first_document (srv (w @ [metadata_query self])) d \<longrightarrow>
        fst (extract_metadata srv self w) = Inr (dict_get d ''content''))
   \<and> (counts (srv (w @ [metadata_query self])) c \<and> 1 < c \<longrightarrow>
        fst (extract_metadata srv self w) =
          Inl (DatabaseTooManyMetadataDocs
                 (''Found '' @ str_int c @ '' metadata documents. Only one is allowed.'')))"
proof (intro conjI impI)
  show "snd (extract_metadata srv self w) = w @ [metadata_query self]"
    by (rule extract_metadata_trace)
next
  assume "\<not> ok_status (srv (w @ [metadata_query self]))"
  then show "fst (extract_metadata srv self w) =
      Inl (DatabaseUnableToExtractData (error_text (srv (w @ [metadata_query self]))))"
    by (simp add: extract_metadata_error)
next
  assume "counts (srv (w @ [metadata_query self])) 0"
  then show "fst (extract_metadata srv self w) = Inr (JObj [])"
    by (simp add: extract_metadata_none)
next
  assume "counts (srv (w @ [metadata_query self])) 1
        \<and> first_document (srv (w @ [metadata_query self])) d"
  then have "extract_metadata srv self w =
      (Inr (dict_get d ''content''), w @ [metadata_query self])"
    by (intro extract_metadata_one) simp_all
  then show "fst (extract_metadata srv self w) = Inr (dict_get d ''content'')"
    by simp
next
  assume "counts (srv (w @ [metadata_query self])) c \<and> 1 < c"
  then have "counts (srv (w @ [metadata_query self])) c" and "1 < c" by simp_all
  then have "extract_metadata srv self w =
           (Inl (DatabaseTooManyMetadataDocs
                   (''Found '' @ str_int c @ '' metadata documents. Only one is allowed.'')),
            w @ [metadata_query self])"
    by (rule extract_metadata_many)
  then show "fst (extract_metadata srv self w) =
      Inl (DatabaseTooManyMetadataDocs
             (''Found '' @ str_int c @ '' metadata documents. Only one is allowed.''))"
    by simp
qed


lemma counts_page_response: "counts (page_response docs hm) (int (length docs))"
  by (simp add: counts_def page_response_def ok_status_def)

lemma first_document_page_response: "first_document (page_response (JObj d # docs) hm) d"
  by (simp add: first_document_def page_response_def)

lemma str_int_2: "str_int 2 = ''2''"
  by (simp add: str_int_def str_nat.simps)

text \<open>A store that is unavailable, and stores with no, one and two metadata documents.\<close>

theorem extract_metadata_cases_witness:
  "snd (extract_metadata (every_time unavailable) demo_db []) = [metadata_query demo_db]
   \<and> \<not> ok_status (every_time unavailable ([] @ [metadata_query demo_db]))
   \<and> fst (extract_metadata (every_time unavailable) demo_db []) =
       Inl (DatabaseUnableToExtractData ''503 Service Unavailable'')
   \<and> counts (no_meta_store ([] @ [metadata_query demo_db])) 0
   \<and> fst (extract_metadata no_meta_store demo_db []) = Inr (JObj [])
   \<and> counts (one_meta_store ([] @ [metadata_query demo_db])) 1
   \<and> first_document (one_meta_store ([] @ [metadata_query demo_db])) metadata_document
   \<and> fst (extract_metadata one_meta_store demo_db []) = Inr block_metadata
   \<and> counts (two_meta_store ([] @ [metadata_query demo_db])) 2
   \<and> fst (extract_metadata two_meta_store demo_db []) =
       Inl (DatabaseTooManyMetadataDocs ''Found 2 metadata documents. Only one is allowed.'')"
proof -
  note t = extract_metadata_cases [where w = "[]" and self = demo_db]
  have e: "\<not> ok_status (every_time unavailable ([] @ [metadata_query demo_db]))"
    by (simp add: every_time_def unavailable_error)
  have z: "counts (no_meta_store ([] @ [metadata_query demo_db])) 0"
    using counts_page_response [of "[]" False]
    by (simp add: no_meta_store_def replay_def script_def)
  have o: "counts (one_meta_store ([] @ [metadata_query demo_db])) 1"
    using counts_page_response [of "[JObj metadata_document]" False]
    by (simp add: one_meta_store_def replay_def script_def)
  have f: "first_document (one_meta_store ([] @ [metadata_query demo_db])) metadata_document"
    by (simp add: one_meta_store_def replay_def script_def first_document_page_response)
  have m: "counts (two_meta_store ([] @ [metadata_query demo_db])) 2"
    using counts_page_response [of "[JObj metadata_document, JObj metadata_document]" False]
    by (simp add: two_meta_store_def replay_def script_def)
  have 0: "snd (extract_metadata (every_time unavailable) demo_db []) = [metadata_query demo_db]"
    using t [where srv = "every_time unavailable", THEN conjunct1] by simp
  have 1: "fst (extract_metadata (every_time unavailable) demo_db []) =
       Inl (DatabaseUnableToExtractData ''503 Service Unavailable'')"
    using t [where srv = "every_time unavailable", THEN conjunct2, THEN conjunct1] e
    by (simp add: every_time_def unavailable_error)
  have 2: "fst (extract_metadata no_meta_store demo_db []) = Inr (JObj [])"
    using t [where srv = no_meta_store, THEN conjunct2, THEN conjunct2, THEN conjunct1] z
    by (rule mp)
  have 3: "fst (extract_metadata one_meta_store demo_db []) = Inr block_metadata"
    using t [where srv = one_meta_store and d = metadata_document,
             THEN conjunct2, THEN conjunct2, THEN conjunct2, THEN conjunct1] o f
    by (simp add: dict_get_def metadata_document_def)
  have 4: "fst (extract_metadata two_meta_store demo_db []) =
       Inl (DatabaseTooManyMetadataDocs ''Found 2 metadata documents. Only one is allowed.'')"
    using t [where srv = two_meta_store and c = 2,
             THEN conjunct2, THEN conjunct2, THEN conjunct2, THEN conjunct2] m
    by (simp add: str_int_2)
  show ?thesis by (intro conjI 0 e 1 z 2 o f 3 m 4)
qed

lemma add_metadata_rejects:
  assumes "extract_metadata srv self w = (Inr current_meta, w1)" and "py_truthy current_meta"
  shows "add_metadata srv self m w =
           (Inl (DatabaseMetadataAlreadyExists
                   ''A collection can have only 1 metadata document.''), w1)"
  using assms by (simp add: add_metadata_def Let_def)

lemma add_metadata_inserts:
  assumes "extract_metadata srv self w = (Inr current_meta, w1)"
    and "\<not> py_truthy current_meta"
  shows "snd (add_metadata srv self m w) = w1 @ [metadata_insert self m]"
    and "ok_status (srv (w1 @ [metadata_insert self m])) \<Longrightarrow>
         add_metadata srv self m w = (Inr 1, w1 @ [metadata_insert self m])"
    and "\<not> ok_status (srv (w1 @ [metadata_insert self m])) \<Longrightarrow>
         add_metadata srv self m w =
           (Inl (DatabaseUnableToAddItem (error_text (srv (w1 @ [metadata_insert self m])))),
            w1 @ [metadata_insert self m])"
  using assms
  by (simp_all add: add_metadata_def make_post_request_eq metadata_insert_def classify_def
        error_text_def Let_def)

text \<open>
  Claim C9. \<^verbatim>\<open>extract_metadata\<close> returns the same empty mapping, after the same
  request, from a store that answers with no metadata document and from a store that
  answers with one metadata document whose \<^verbatim>\<open>content\<close> is the empty mapping. In that
  second state the test of \<^verbatim>\<open>add_metadata\<close> on what was extracted lets the call go on:
  it sends the insert of a second metadata document, and returns 1 when the store
  accepts it.
\<close>

theorem empty_metadata_unseen:
  "counts (srv0 (w @ [metadata_query self])) 0
   \<and> counts (srv1 (w @ [metadata_query self])) 1
   \<and> first_document (srv1 (w @ [metadata_query self])) d
   \<and> map_of d ''content'' = Some (JObj []) \<longrightarrow>
     extract_metadata srv0 self w = (Inr (JObj []), w @ [metadata_query self])
     \<and> extract_metadata srv1 self w = (Inr (JObj []), w @ [metadata_query self])
     \<and> snd (add_metadata srv1 self m w) = w @ [metadata_query self, metadata_insert self m]
     \<and> (ok_status (srv1 (w @ [metadata_query self, metadata_insert self m])) \<longrightarrow>
          add_metadata srv1 self m w =
            (Inr 1, w @ [metadata_query self, metadata_insert self m]))"
proof (intro impI)
  assume h: "counts (srv0 (w @ [metadata_query self])) 0
   \<and> counts (srv1 (w @ [metadata_query self])) 1
   \<and> first_document (srv1 (w @ [metadata_query self])) d
   \<and> map_of d ''content'' = Some (JObj [])"
  then have 0: "extract_metadata srv0 self w = (Inr (JObj []), w @ [metadata_query self])"
    by (intro extract_metadata_none) simp
  from h have "extract_metadata srv1 self w =
      (Inr (dict_get d ''content''), w @ [metadata_query self])"
    by (intro extract_metadata_one) simp_all
  with h have 1: "extract_metadata srv1 self w = (Inr (JObj []), w @ [metadata_query self])"
    by (simp add: dict_get_def)
  have f: "\<not> py_truthy (JObj [])" by simp
  from add_metadata_inserts(1) [OF 1 f, of m]
  have 2: "snd (add_metadata srv1 self m w) =
      w @ [metadata_query self, metadata_insert self m]"
    by simp
  have 3: "ok_status (srv1 (w @ [metadata_query self, metadata_insert self m])) \<longrightarrow>
          add_metadata srv1 self m w =
            (Inr 1, w @ [metadata_query self, metadata_insert self m])"
    using add_metadata_inserts(2) [OF 1 f, of m] by simp
  from 0 1 2 3
  show "extract_metadata srv0 self w = (Inr (JObj []), w @ [metadata_query self])
     \<and> extract_metadata srv1 self w = (Inr (JObj []), w @ [metadata_query self])
     \<and> snd (add_metadata srv1 self m w) = w @ [metadata_query self, metadata_insert self m]
     \<and> (ok_status (srv1 (w @ [metadata_query self, metadata_insert self m])) \<longrightarrow>
          add_metadata srv1 self m w =
            (Inr 1, w @ [metadata_query self, metadata_insert self m]))"
    by (intro conjI)
qed


lemma created_ok: "ok_status created"
  by (simp add: ok_status_def created_def)

text \<open>A store with no metadata document, and one whose metadata document has an empty
  content and which accepts another.\<close>

theorem empty_metadata_unseen_witness:
  "counts (no_meta_store ([] @ [metadata_query demo_db])) 0
   \<and> counts (empty_meta_store ([] @ [metadata_query demo_db])) 1
   \<and> first_document (empty_meta_store ([] @ [metadata_query demo_db]))
         [(''type'', JStr ''Metadata''), (''content'', JObj [])]
   \<and> extract_metadata no_meta_store demo_db [] = (Inr (JObj []), [metadata_query demo_db])
   \<and> extract_metadata empty_meta_store demo_db [] = (Inr (JObj []), [metadata_query demo_db])
   \<and> ok_status (empty_meta_store
         ([] @ [metadata_query demo_db, metadata_insert demo_db block_metadata]))
   \<and> add_metadata empty_meta_store demo_db block_metadata [] =
       (Inr 1, [metadata_query demo_db, metadata_insert demo_db block_metadata])"
proof -
  have a: "counts (no_meta_store ([] @ [metadata_query demo_db])) 0"
    using counts_page_response [of "[]" False]
    by (simp add: no_meta_store_def replay_def script_def)
  have b: "counts (empty_meta_store ([] @ [metadata_query demo_db])) 1"
    using counts_page_response [of "[empty_metadata]" False]
    by (simp add: empty_meta_store_def replay_def script_def)
  have c: "first_document (empty_meta_store ([] @ [metadata_query demo_db]))
         [(''type'', JStr ''Metadata''), (''content'', JObj [])]"
    by (simp add: empty_meta_store_def replay_def script_def empty_metadata_def
          first_document_page_response)
  have d: "map_of [(''type'', JStr ''Metadata''), (''content'', JObj [])] ''content'' =
      Some (JObj [])"
    by simp
  have e: "ok_status (empty_meta_store
         ([] @ [metadata_query demo_db, metadata_insert demo_db block_metadata]))"
    by (simp add: empty_meta_store_def replay_def script_def created_ok)
  from a b c d
  have h: "counts (no_meta_store ([] @ [metadata_query demo_db])) 0
     \<and> counts (empty_meta_store ([] @ [metadata_query demo_db])) 1
     \<and> first_document (empty_meta_store ([] @ [metadata_query demo_db]))
           [(''type'', JStr ''Metadata''), (''content'', JObj [])]
     \<and> map_of [(''type'', JStr ''Metadata''), (''content'', JObj [])] ''content'' =
           Some (JObj [])"
    by (intro conjI)
  note t = mp [OF empty_metadata_unseen [where ?srv0.0 = no_meta_store
      and ?srv1.0 = empty_meta_store and w = "[]" and self = demo_db
      and d = "[(''type'', JStr ''Metadata''), (''content'', JObj [])]"
      and m = block_metadata] h]
  have 1: "extract_metadata no_meta_store demo_db [] = (Inr (JObj []), [metadata_query demo_db])"
    using t [THEN conjunct1] by simp
  have 2: "extract_metadata empty_meta_store demo_db [] =
      (Inr (JObj []), [metadata_query demo_db])"
    using t [THEN conjunct2, THEN conjunct1] by simp
  have 3: "add_metadata empty_meta_store demo_db block_metadata [] =
       (Inr 1, [metadata_query demo_db, metadata_insert demo_db block_metadata])"
    using mp [OF t [THEN conjunct2, THEN conjunct2, THEN conjunct2] e] by simp
  show ?thesis by (intro conjI a b c 1 2 e 3)
qed

text \<open>
  Claim C1. On a fresh collection, two calls of \<^verbatim>\<open>add_metadata\<close> with the empty mapping:
  the first finds no metadata document and inserts one; the second is given that
  document by the store, takes its empty content for no metadata, and inserts a second
  one. Both calls return 1; the second does not raise the metadata-already-exists error.
\<close>

theorem add_empty_metadata_twice:
  "add_metadata fresh_store demo_db (JObj []) [] =
     (Inr 1, [metadata_query demo_db, metadata_insert demo_db (JObj [])])
   \<and> payload (metadata_insert demo_db (JObj [])) = Some empty_metadata
   \<and> fresh_store [metadata_query demo_db, metadata_insert demo_db (JObj []),
                    metadata_query demo_db] = page_response [empty_metadata] False
   \<and> add_metadata fresh_store demo_db (JObj [])
         [metadata_query demo_db, metadata_insert demo_db (JObj [])] =
     (Inr 1, [metadata_query demo_db, metadata_insert demo_db (JObj []),
              metadata_query demo_db, metadata_insert demo_db (JObj [])])"
proof (intro conjI)
  let ?q = "metadata_query demo_db" and ?i = "metadata_insert demo_db (JObj [])"
  have f: "\<not> py_truthy (JObj [])" by simp
  have "counts (fresh_store ([] @ [?q])) 0"
    using counts_page_response [of "[]" False]
    by (simp add: fresh_store_def replay_def script_def)
  then have 1: "extract_metadata fresh_store demo_db [] = (Inr (JObj []), [] @ [?q])"
    by (rule extract_metadata_none)
  have "ok_status (fresh_store (([] @ [?q]) @ [?i]))"
    by (simp add: fresh_store_def replay_def script_def created_ok)
  with add_metadata_inserts(2) [OF 1 f, of "JObj []"]
  show "add_metadata fresh_store demo_db (JObj []) [] = (Inr 1, [?q, ?i])"
    by simp
  have "counts (fresh_store ([?q, ?i] @ [?q])) 1"
    using counts_page_response [of "[empty_metadata]" False]
    by (simp add: fresh_store_def replay_def script_def)
  moreover have "first_document (fresh_store ([?q, ?i] @ [?q]))
      [(''type'', JStr ''Metadata''), (''content'', JObj [])]"
    by (simp add: fresh_store_def replay_def script_def empty_metadata_def
          first_document_page_response)
  ultimately have "extract_metadata fresh_store demo_db [?q, ?i] =
      (Inr (dict_get [(''type'', JStr ''Metadata''), (''content'', JObj [])] ''content''),
       [?q, ?i] @ [?q])"
    by (rule extract_metadata_one)
  then have 2: "extract_metadata fresh_store demo_db [?q, ?i] =
      (Inr (JObj []), [?q, ?i] @ [?q])"
    by (simp add: dict_get_def)
  have "ok_status (fresh_store (([?q, ?i] @ [?q]) @ [?i]))"
    by (simp add: fresh_store_def replay_def script_def created_ok)
  with add_metadata_inserts(2) [OF 2 f, of "JObj []"]
  show "add_metadata fresh_store demo_db (JObj []) [?q, ?i] = (Inr 1, [?q, ?i, ?q, ?i])"
    by simp
  show "payload ?i = Some empty_metadata"
    by (simp add: metadata_insert_def empty_metadata_def)
  show "fresh_store [?q, ?i, ?q] = page_response [empty_metadata] False"
    by (simp add: fresh_store_def replay_def script_def)
qed

lemma make_get_request_eq:
  "make_get_request srv self target_url w =
     (classify (srv (w @ [\<lparr>verb = GET, url = target_url, auth = (user self, pword self),
                            payload = None\<rparr>])),
      w @ [\<lparr>verb = GET, url = target_url, auth = (user self, pword self),
             payload = None\<rparr>])"
  by (simp add: make_get_request_def classify_def ok_status_def Let_def)


lemma put_collection_eq:
  "put_collection srv self w =
     (if 299 < status_code (srv (w @ [put_request self]))
      then Inl (DatabaseUnableToCreate (error_text (srv (w @ [put_request self]))))
      else Inr 1, w @ [put_request self])"
  by (simp add: put_collection_def put_request_def error_text_def Let_def)


lemma object_fields:
  "user (object DB u p c) = u" "pword (object DB u p c) = p"
  "collname (object DB u p c) = c"
  "baseurl (object DB u p c) = DB @ u @ ''/soda/latest/'' @ c"
  by (simp_all add: object_def)

lemma init_create:
  "init DB srv (JStr u) p (JStr c) True overwrite w =
     (case create_collection DB srv (object DB u p c) overwrite w of
        (Inl e, w') \<Rightarrow> (Inl e, w')
      | (Inr r, w') \<Rightarrow> (Inr (object DB u p c), w'))"
  by (simp add: init_def object_def Let_def split: prod.splits sum.splits)



lemma create_collection_absent:
  assumes "list_collections DB srv self True w = (Inr (JList names), w1)"
    and "JStr (collname self) \<notin> set names"
  shows "create_collection DB srv self overwrite w = put_collection srv self w1"
  using assms by (simp add: create_collection_def)




lemma list_collections_listing:
  assumes "srv (w @ [listing_request DB self]) = listing"
  shows "list_collections DB srv self True w =
           (Inr (JList [JStr ''nuclei'', JStr ''cells'']), w @ [listing_request DB self])"
  using assms
  by (simp add: list_collections_def make_get_request_eq listing_request_def [symmetric]
        Let_def classify_def listing_def ok_status_def)

lemma store_answers:
  "creating_store [a] = listing" "creating_store [a, b] = created"
  "overwriting_store [a] = listing" "overwriting_store [a, b] = deleted"
  "overwriting_store [a, b, c] = created"
  "refusing_store [a] = listing" "refusing_store [a, b] = unavailable"
  "switching_store [a] = listing" "switching_store [a, b] = switching"
  by (simp_all add: creating_store_def overwriting_store_def refusing_store_def
        switching_store_def replay_def script_def)

lemma response_statuses:
  "status_code deleted = 200" "status_code unavailable \<noteq> 200"
  "299 < status_code unavailable" "ok_status created" "\<not> ok_status switching"
  "status_code switching = 101"
  by (simp_all add: deleted_def unavailable_def created_def switching_def ok_status_def)



text \<open>
  Claim C4. The create request of \<^verbatim>\<open>__create_collection\<close> is answered \<^verbatim>\<open>101\<close>, a status
  outside [200,299]: the construction returns the object and raises nothing, because the
  response of the PUT is tested with \<^verbatim>\<open>status_code > 299\<close> only.
\<close>

theorem create_accepts_101:
  "init demo_url switching_store (JStr ''admin'') (JStr ''secret'') (JStr ''fresh'')
     True False [] =
     (Inr (object demo_url ''admin'' (JStr ''secret'') ''fresh''),
      [listing_request demo_url (object demo_url ''admin'' (JStr ''secret'') ''fresh''),
       put_request (object demo_url ''admin'' (JStr ''secret'') ''fresh'')])
   \<and> switching_store
        [listing_request demo_url (object demo_url ''admin'' (JStr ''secret'') ''fresh''),
         put_request (object demo_url ''admin'' (JStr ''secret'') ''fresh'')] = switching
   \<and> status_code switching = 101
   \<and> \<not> ok_status switching"
proof (intro conjI)
  let ?fresh = "object demo_url ''admin'' (JStr ''secret'') ''fresh''"
  have "switching_store ([] @ [listing_request demo_url ?fresh]) = listing"
    by (simp add: store_answers)
  then have l: "list_collections demo_url switching_store ?fresh True [] =
      (Inr (JList [JStr ''nuclei'', JStr ''cells'']), [] @ [listing_request demo_url ?fresh])"
    by (rule list_collections_listing)
  have "JStr (collname ?fresh) \<notin> set [JStr ''nuclei'', JStr ''cells'']"
    by (simp add: object_fields)
  from create_collection_absent [OF l this, of False]
  show "init demo_url switching_store (JStr ''admin'') (JStr ''secret'') (JStr ''fresh'')
     True False [] = (Inr ?fresh, [listing_request demo_url ?fresh, put_request ?fresh])"
    by (simp add: init_create put_collection_eq store_answers response_statuses)
  show "switching_store [listing_request demo_url ?fresh, put_request ?fresh] = switching"
    by (simp add: store_answers)
  show "status_code switching = 101" by (simp add: response_statuses)
  show "\<not> ok_status switching" by (simp add: response_statuses)
qed

text \<open>The other operations go through the transport helpers, which take the statuses
  from 200 to 299, and 200 alone for a DELETE, for a success.\<close>

lemma add_item_eq:
  "add_item srv self item_dict w =
     (if ok_status (srv (w @ [\<lparr>verb = POST, url = baseurl self,
                                auth = (user self, pword self), payload = Some item_dict\<rparr>]))
      then Inr 1
      else Inl (DatabaseUnableToAddItem
                  (error_text (srv (w @ [\<lparr>verb = POST, url = baseurl self,
                                            auth = (user self, pword self),
                                            payload = Some item_dict\<rparr>])))),
      w @ [\<lparr>verb = POST, url = baseurl self, auth = (user self, pword self),
             payload = Some item_dict\<rparr>])"
  by (simp add: add_item_def make_post_request_eq classify_def error_text_def)

lemma add_multiple_items_eq:
  "add_multiple_items srv self items_list w =
     (if ok_status (srv (w @ [\<lparr>verb = POST, url = baseurl self @ ''?action=insert'',
                                auth = (user self, pword self),
                                payload = Some (JList items_list)\<rparr>]))
      then Inr 1
      else Inl (DatabaseUnableToAddItem
                  (error_text (srv (w @ [\<lparr>verb = POST,
                                            url = baseurl self @ ''?action=insert'',
                                            auth = (user self, pword self),
                                            payload = Some (JList items_list)\<rparr>])))),
      w @ [\<lparr>verb = POST, url = baseurl self @ ''?action=insert'',
             auth = (user self, pword self), payload = Some (JList items_list)\<rparr>])"
  by (simp add: add_multiple_items_def make_post_request_eq classify_def error_text_def
        Let_def)

lemma list_collections_error:
  assumes "\<not> ok_status (srv (w @ [listing_request DB self]))"
  shows "list_collections DB srv self only_names w =
           (Inl (DatabaseUnableToAccess (error_text (srv (w @ [listing_request DB self])))),
            w @ [listing_request DB self])"
  using assms
  by (simp add: list_collections_def make_get_request_eq listing_request_def [symmetric]
        Let_def classify_def error_text_def)

end
